theory Spec2Isabelle
  imports Complex_Main "HOL-Library.Log_Nat"
begin

section \<open>Types (types.ts)\<close>

text \<open>
  A JavaScript \<open>number\<close> is modelled as a real; \<open>NaN\<close> and the infinities of IEEE
  doubles are outside the model, and rounding is modelled where a claim turns on it, for
  \<open>normalizeAngle\<close>. A \<open>Point\<close> keeps the two fields every function of
  the editor reads and writes (the optional \<open>altitude\<close> and \<open>frame\<close> are never touched).
\<close>

record Point =
  latitude :: real
  longitude :: real

datatype OrbitAreaAlignmentEnum = CENTRE | LEFT | RIGHT

text \<open>The string value the TypeScript enum gives each member.\<close>

fun alignmentValue :: "OrbitAreaAlignmentEnum \<Rightarrow> string" where
  "alignmentValue CENTRE = ''OrbitAreaAlignmentEnum_CENTRE''"
| "alignmentValue LEFT = ''OrbitAreaAlignmentEnum_LEFT''"
| "alignmentValue RIGHT = ''OrbitAreaAlignmentEnum_RIGHT''"

section \<open>Angles (geo-utils.ts)\<close>

text \<open>
  The remainder operator \<open>%\<close> of JavaScript on numbers: the quotient is truncated
  towards zero, so the result has the sign of the dividend.
\<close>

definition js_rem :: "real \<Rightarrow> real \<Rightarrow> real" where
  "js_rem x y = x - y * of_int (if 0 \<le> x / y then \<lfloor>x / y\<rfloor> else \<lceil>x / y\<rceil>)"

text \<open>
  \<open>normalizeAngle\<close> in exact arithmetic, the reading under which the classifier and the
  polygon are stated. What it computes on doubles, where the sum is rounded, is
  \<open>normalizeAngle_double\<close> in the next section.
\<close>

definition normalizeAngle :: "real \<Rightarrow> real" where
  "normalizeAngle angle = js_rem (js_rem angle 360 + 360) 360"

section \<open>Angles as the machine computes them\<close>

text \<open>
  \<open>normalizeAngle\<close> above reads the expression in exact arithmetic. A JavaScript number
  is an IEEE 754 binary64 value, and of the three operations of the expression the sum is
  rounded: the remainder of two doubles is a double, so \<open>%\<close> is exact, while
  \<open>(angle % 360) + 360\<close> is rounded to the nearest double, a tie going to the even
  significand. \<open>ulp x\<close> is the spacing of the doubles around \<open>x\<close> (significands of 53
  bits, smallest spacing \<open>2 powi - 1074\<close>); overflow does not arise, the sum being below
  720. \<open>isDouble\<close> says that a real is a finite double.
\<close>

definition roundEven :: "real \<Rightarrow> int" where
  "roundEven m =
     (let f = \<lfloor>m\<rfloor>; d = m - of_int f in
      if d < 1 / 2 then f
      else if 1 / 2 < d then f + 1
      else if even f then f else f + 1)"

definition ulp :: "real \<Rightarrow> real" where
  "ulp x = 2 powi (max (bitlen \<lfloor>\<bar>x\<bar> * 2 ^ 1074\<rfloor> - 53) 0 - 1074)"

definition roundDouble :: "real \<Rightarrow> real" where
  "roundDouble x = of_int (roundEven (x / ulp x)) * ulp x"

definition normalizeAngle_double :: "real \<Rightarrow> real" where
  "normalizeAngle_double angle = js_rem (roundDouble (js_rem angle 360 + 360)) 360"

definition maxDouble :: real where
  "maxDouble = (2 ^ 53 - 1) * 2 ^ 971"

definition isDouble :: "real \<Rightarrow> bool" where
  "isDouble x = (roundDouble x = x \<and> \<bar>x\<bar> \<le> maxDouble)"

section \<open>The geolib functions\<close>

text \<open>
  Distance, bearing and destination come from the third-party package \<open>geolib\<close>, which
  is not part of the repository; the three functions the code imports are a parameter of
  every definition that calls them. \<open>computeDestinationPoint\<close> takes the start, the
  distance and the bearing, in that order.
\<close>

record geolib =
  getDistance :: "Point \<Rightarrow> Point \<Rightarrow> real"
  getGreatCircleBearing :: "Point \<Rightarrow> Point \<Rightarrow> real"
  computeDestinationPoint :: "Point \<Rightarrow> real \<Rightarrow> real \<Rightarrow> Point"

definition calculateDistance :: "geolib \<Rightarrow> Point \<Rightarrow> Point \<Rightarrow> real" where
  "calculateDistance G point1 point2 =
     getDistance G \<lparr>latitude = latitude point1, longitude = longitude point1\<rparr>
                   \<lparr>latitude = latitude point2, longitude = longitude point2\<rparr>"

definition calculateBearing :: "geolib \<Rightarrow> Point \<Rightarrow> Point \<Rightarrow> real" where
  "calculateBearing G point1 point2 =
     getGreatCircleBearing G \<lparr>latitude = latitude point1, longitude = longitude point1\<rparr>
                             \<lparr>latitude = latitude point2, longitude = longitude point2\<rparr>"

definition calculateDestinationPoint :: "geolib \<Rightarrow> Point \<Rightarrow> real \<Rightarrow> real \<Rightarrow> Point" where
  "calculateDestinationPoint G start bearing distance =
     (let result = computeDestinationPoint G
                     \<lparr>latitude = latitude start, longitude = longitude start\<rparr> distance bearing
      in \<lparr>latitude = latitude result, longitude = longitude result\<rparr>)"

text \<open>
  A stand-in for the library on a flat grid, used only to run the definitions on concrete
  points: the bearing is the eight-point compass direction from the first point to the
  second (latitude grows to the north, longitude to the east), the distance is the
  taxicab distance, and the destination moves north, east, south or west, whichever is
  nearest to the bearing.
\<close>

definition compassBearing :: "Point \<Rightarrow> Point \<Rightarrow> real" where
  "compassBearing a b =
     (let dx = longitude b - longitude a; dy = latitude b - latitude a in
      if dx = 0 then (if dy < 0 then 180 else 0)
      else if 0 < dx then (if 0 < dy then 45 else if dy = 0 then 90 else 135)
      else (if dy < 0 then 225 else if dy = 0 then 270 else 315))"

definition compassDistance :: "Point \<Rightarrow> Point \<Rightarrow> real" where
  "compassDistance a b = \<bar>latitude b - latitude a\<bar> + \<bar>longitude b - longitude a\<bar>"

definition compassDestination :: "Point \<Rightarrow> real \<Rightarrow> real \<Rightarrow> Point" where
  "compassDestination s d b =
     (if b < 45 \<or> 315 \<le> b then \<lparr>latitude = latitude s + d, longitude = longitude s\<rparr>
      else if b < 135 then \<lparr>latitude = latitude s, longitude = longitude s + d\<rparr>
      else if b < 225 then \<lparr>latitude = latitude s - d, longitude = longitude s\<rparr>
      else \<lparr>latitude = latitude s, longitude = longitude s - d\<rparr>)"

definition compassGeolib :: geolib where
  "compassGeolib = \<lparr>getDistance = compassDistance,
                     getGreatCircleBearing = compassBearing,
                     computeDestinationPoint = compassDestination\<rparr>"

section \<open>The geolib functions on the sphere\<close>

text \<open>
  Modelled from the spec: the conversion from degrees to radians that the great-circle
  functions of geolib start with. The library is not in the repository; the specification
  gives latitudes, longitudes and bearings in degrees.
\<close>

definition toRad :: "real \<Rightarrow> real" where
  "toRad deg = deg * pi / 180"

text \<open>
  Modelled from the spec: the conversion from radians back to degrees, missing with the
  library.
\<close>

definition toDeg :: "real \<Rightarrow> real" where
  "toDeg rad = rad * 180 / pi"

text \<open>
  Modelled from the spec: the two-argument arc tangent of the missing library's bearing
  and destination, the angle in the interval from \<open>- pi\<close>, excluded, to \<open>pi\<close> of the
  point with abscissa \<open>x\<close> and ordinate \<open>y\<close>; 0 at the origin.
\<close>

definition atan2 :: "real \<Rightarrow> real \<Rightarrow> real" where
  "atan2 y x =
     (if 0 < x then arctan (y / x)
      else if x < 0 then (if 0 \<le> y then arctan (y / x) + pi else arctan (y / x) - pi)
      else if 0 < y then pi / 2
      else if y < 0 then - (pi / 2)
      else 0)"

text \<open>
  Modelled from the spec: the guard of the missing \<open>getDistance\<close> that keeps the argument
  of the arc cosine between \<open>- 1\<close> and 1.
\<close>

definition clampUnit :: "real \<Rightarrow> real" where
  "clampUnit v = max (- 1) (min 1 v)"

text \<open>
  Modelled from the spec: the rounding of the missing \<open>getDistance\<close>, which returns its
  distance to a given accuracy in metres, \<open>Math.round (v / accuracy) * accuracy\<close>, halves
  going up.
\<close>

definition roundTo :: "real \<Rightarrow> real \<Rightarrow> real" where
  "roundTo accuracy v = of_int \<lfloor>v / accuracy + 1 / 2\<rfloor> * accuracy"

text \<open>
  Modelled from the spec: \<open>getDistance\<close> of geolib, which is not in the repository. The
  specification calls it the great-circle distance in metres, on the sphere: the angle
  between the two points by the spherical law of cosines, times the radius. The radius
  and the accuracy of the result are parameters.
\<close>

definition sphereDistance :: "real \<Rightarrow> real \<Rightarrow> Point \<Rightarrow> Point \<Rightarrow> real" where
  "sphereDistance radius accuracy a b =
     (let phi1 = toRad (latitude a);
          phi2 = toRad (latitude b);
          dlambda = toRad (longitude b - longitude a);
          distance = radius * arccos (clampUnit (sin phi1 * sin phi2
                                                 + cos phi1 * cos phi2 * cos dlambda))
      in roundTo accuracy distance)"

text \<open>
  Modelled from the spec: \<open>getGreatCircleBearing\<close> of geolib, which is not in the
  repository. The specification calls it the initial great-circle bearing from the first
  point to the second, in degrees from 0 up to, not including, 360.
\<close>

definition sphereBearing :: "Point \<Rightarrow> Point \<Rightarrow> real" where
  "sphereBearing a b =
     (let phi1 = toRad (latitude a);
          phi2 = toRad (latitude b);
          dlambda = toRad (longitude b - longitude a)
      in js_rem (toDeg (atan2 (sin dlambda * cos phi2)
                              (cos phi1 * sin phi2 - sin phi1 * cos phi2 * cos dlambda))
                 + 360) 360)"

text \<open>
  Modelled from the spec: \<open>computeDestinationPoint\<close> of geolib, which is not in the
  repository. The specification has it project a point from the start along a great-circle
  bearing, by a distance in metres; the longitude is brought back between \<open>- 180\<close> and
  180. The radius is a parameter. The arguments are the start, the distance and the
  bearing, in the order of the call in \<open>calculateDestinationPoint\<close>.
\<close>

definition sphereDestination :: "real \<Rightarrow> Point \<Rightarrow> real \<Rightarrow> real \<Rightarrow> Point" where
  "sphereDestination radius start distance bearing =
     (let delta = distance / radius;
          theta = toRad bearing;
          phi1 = toRad (latitude start);
          lambda1 = toRad (longitude start);
          phi2 = arcsin (sin phi1 * cos delta + cos phi1 * sin delta * cos theta);
          lambda2 = lambda1 + atan2 (sin theta * sin delta * cos phi1)
                                    (cos delta - sin phi1 * sin phi2)
      in if toDeg lambda2 < - 180 \<or> 180 < toDeg lambda2
         then \<lparr>latitude = toDeg phi2,
               longitude = toDeg (js_rem (lambda2 + 3 * pi) (2 * pi) - pi)\<rparr>
         else \<lparr>latitude = toDeg phi2, longitude = toDeg lambda2\<rparr>)"

text \<open>
  Modelled from the spec: the three missing functions together, as the library the
  repository's functions call.
\<close>

definition sphereGeolib :: "real \<Rightarrow> real \<Rightarrow> real \<Rightarrow> geolib" where
  "sphereGeolib distanceRadius accuracy projectionRadius =
     \<lparr>getDistance = sphereDistance distanceRadius accuracy,
      getGreatCircleBearing = sphereBearing,
      computeDestinationPoint = sphereDestination projectionRadius\<rparr>"

text \<open>
  Modelled from the spec: the missing library with the values it documents: distances on
  a sphere of radius 6378137 metres, rounded to whole metres, and projection on the mean
  radius of the Earth, 6371000 metres.
\<close>

definition geolibDefaults :: geolib where
  "geolibDefaults = sphereGeolib 6378137 1 6371000"

section \<open>The alignment classifier (alignment-utils.ts)\<close>

text \<open>
  The field \<open>alignment\<close> of a quadrant is called \<open>quadrant_alignment\<close> here, the
  plain name being kept for the editor state.
\<close>

record AlignmentQuadrant =
  name :: string
  minAngle :: real
  maxAngle :: real
  quadrant_alignment :: OrbitAreaAlignmentEnum

definition ALIGNMENT_QUADRANTS :: "AlignmentQuadrant list" where
  "ALIGNMENT_QUADRANTS =
     [\<lparr>name = ''CENTER_FORWARD'', minAngle = 315, maxAngle = 45, quadrant_alignment = CENTRE\<rparr>,
      \<lparr>name = ''RIGHT'', minAngle = 45, maxAngle = 135, quadrant_alignment = RIGHT\<rparr>,
      \<lparr>name = ''CENTER_BACKWARD'', minAngle = 135, maxAngle = 225, quadrant_alignment = CENTRE\<rparr>,
      \<lparr>name = ''LEFT'', minAngle = 225, maxAngle = 315, quadrant_alignment = LEFT\<rparr>]"

text \<open>
  The \<open>for\<close> loop over the quadrants of \<open>determineAlignmentFromMousePosition\<close>:
  \<open>Some\<close> is a \<open>return\<close> from inside the loop, \<open>None\<close> is leaving the loop with no
  quadrant matched.
\<close>

fun scanQuadrants :: "AlignmentQuadrant list \<Rightarrow> real \<Rightarrow> OrbitAreaAlignmentEnum option" where
  "scanQuadrants [] relativeBearing = None"
| "scanQuadrants (quadrant # rest) relativeBearing =
     (if minAngle quadrant > maxAngle quadrant then
        (if relativeBearing \<ge> minAngle quadrant \<or> relativeBearing \<le> maxAngle quadrant
         then Some (quadrant_alignment quadrant)
         else scanQuadrants rest relativeBearing)
      else if relativeBearing \<ge> minAngle quadrant \<and> relativeBearing \<le> maxAngle quadrant
      then Some (quadrant_alignment quadrant)
      else scanQuadrants rest relativeBearing)"

definition determineAlignmentFromMousePosition ::
  "geolib \<Rightarrow> Point \<Rightarrow> Point \<Rightarrow> Point \<Rightarrow> OrbitAreaAlignmentEnum" where
  "determineAlignmentFromMousePosition G firstPoint' secondPoint' mousePoint =
     (let mainBearing = calculateBearing G firstPoint' secondPoint';
          mouseBearing = calculateBearing G secondPoint' mousePoint;
          relativeBearing = normalizeAngle (mouseBearing - mainBearing)
      in case scanQuadrants ALIGNMENT_QUADRANTS relativeBearing of
           Some found \<Rightarrow> found
         | None \<Rightarrow> CENTRE)"

text \<open>
  The classifier as the specification words it, for comparison with the loop: a quadrant
  contains a relative bearing between its bounds, both included, or, when it wraps
  through 0, at or above its lower bound or at or below its upper one; the answer is the
  alignment of the first quadrant in scan order that contains the relative bearing, and
  \<open>CENTRE\<close> when none does.
\<close>

definition specQuadrantContains :: "AlignmentQuadrant \<Rightarrow> real \<Rightarrow> bool" where
  "specQuadrantContains q relative =
     (if minAngle q > maxAngle q then relative \<ge> minAngle q \<or> relative \<le> maxAngle q
      else minAngle q \<le> relative \<and> relative \<le> maxAngle q)"

definition specScanOrder :: "AlignmentQuadrant list" where
  "specScanOrder =
     [\<lparr>name = ''CENTER_FORWARD'', minAngle = 315, maxAngle = 45, quadrant_alignment = CENTRE\<rparr>,
      \<lparr>name = ''RIGHT'', minAngle = 45, maxAngle = 135, quadrant_alignment = RIGHT\<rparr>,
      \<lparr>name = ''CENTER_BACKWARD'', minAngle = 135, maxAngle = 225, quadrant_alignment = CENTRE\<rparr>,
      \<lparr>name = ''LEFT'', minAngle = 225, maxAngle = 315, quadrant_alignment = LEFT\<rparr>]"

definition specClassify :: "real \<Rightarrow> OrbitAreaAlignmentEnum" where
  "specClassify relative =
     (case find (\<lambda>q. specQuadrantContains q relative) specScanOrder of
        Some q \<Rightarrow> quadrant_alignment q
      | None \<Rightarrow> CENTRE)"

section \<open>The racetrack polygon (geo-utils.ts)\<close>

text \<open>
  The centerline of \<open>generateOrbitAreaPolygon\<close>: the two axis points, moved sideways for
  the alignments \<open>LEFT\<close> and \<open>RIGHT\<close>. The alignment arrives as a string and is compared
  with the enum's string values.
\<close>

definition centerline :: "geolib \<Rightarrow> Point \<Rightarrow> Point \<Rightarrow> real \<Rightarrow> real \<Rightarrow> string \<Rightarrow> Point \<times> Point" where
  "centerline G firstPoint' secondPoint' bearing radius alignment' =
     (if alignment' = ''OrbitAreaAlignmentEnum_LEFT'' then
        (let leftBearing = normalizeAngle (bearing - 90) in
         (calculateDestinationPoint G firstPoint' leftBearing radius,
          calculateDestinationPoint G secondPoint' leftBearing radius))
      else if alignment' = ''OrbitAreaAlignmentEnum_RIGHT'' then
        (let rightBearing = normalizeAngle (bearing + 90) in
         (calculateDestinationPoint G firstPoint' rightBearing radius,
          calculateDestinationPoint G secondPoint' rightBearing radius))
      else (firstPoint', secondPoint'))"

text \<open>
  One cap: the loop \<open>for (let i = 0; i <= segments; i++)\<close>, pushing one projected point
  per round onto \<open>polygonPoints\<close>.
\<close>

function capLoop ::
  "geolib \<Rightarrow> Point \<Rightarrow> real \<Rightarrow> real \<Rightarrow> real \<Rightarrow> nat \<Rightarrow> nat \<Rightarrow> Point list \<Rightarrow> Point list" where
  "capLoop G center radius startAngle angleStep segments i polygonPoints =
     (if i \<le> segments then
        (let angle = normalizeAngle (startAngle + real i * angleStep);
             point = calculateDestinationPoint G center angle radius
         in capLoop G center radius startAngle angleStep segments (i + 1) (polygonPoints @ [point]))
      else polygonPoints)"
  by pat_completeness auto
termination
  by (relation "measure (\<lambda>(G, center, radius, startAngle, angleStep, segments, i, polygonPoints).
                           segments + 1 - i)") auto

definition generateOrbitAreaPolygon ::
  "geolib \<Rightarrow> Point \<Rightarrow> Point \<Rightarrow> real \<Rightarrow> string \<Rightarrow> Point list" where
  "generateOrbitAreaPolygon G firstPoint' secondPoint' width' alignment' =
     (let bearing = calculateBearing G firstPoint' secondPoint';
          radius = width' / 2;
          line = centerline G firstPoint' secondPoint' bearing radius alignment';
          startAngle = normalizeAngle (bearing + 90);
          endAngle = normalizeAngle (bearing - 90);
          endAngle = (if startAngle > endAngle then endAngle + 360 else endAngle);
          segments = 20;
          angleStep = (endAngle - startAngle) / real segments;
          polygonPoints = capLoop G (fst line) radius startAngle angleStep segments 0 [];
          startAngle = normalizeAngle (bearing - 90);
          endAngle = normalizeAngle (bearing + 90);
          endAngle = (if startAngle > endAngle then endAngle + 360 else endAngle);
          polygonPoints = capLoop G (snd line) radius startAngle angleStep segments 0 polygonPoints
      in case polygonPoints of
           [] \<Rightarrow> polygonPoints
         | first # _ \<Rightarrow>
             polygonPoints @ [\<lparr>latitude = latitude first, longitude = longitude first\<rparr>])"

section \<open>The editor layer (OrbitAreaEditor.ts)\<close>

datatype EditorMode = INACTIVE | FIRST_POINT | SECOND_POINT | WIDTH_SELECTION

text \<open>An optional field of the TypeScript interface is an \<open>option\<close>; \<open>None\<close> is \<open>undefined\<close>.\<close>

record EditorState =
  mode :: EditorMode
  firstPoint :: "Point option"
  secondPoint :: "Point option"
  width :: "real option"
  mousePosition :: "Point option"
  alignment :: "OrbitAreaAlignmentEnum option"

text \<open>
  A completed area; its \<open>width\<close> and \<open>alignment\<close> are called \<open>area_width\<close> and
  \<open>area_alignment\<close> here. The optional \<open>id\<close> is never set by the editor.
\<close>

record OrbitArea =
  first_point :: Point
  second_point :: Point
  area_width :: real
  area_alignment :: OrbitAreaAlignmentEnum

text \<open>
  Of the picking information of deck.gl the handlers read the coordinate only: an array
  of numbers (longitude first), or nothing when the event resolves to no map position.
\<close>

record PickingInfo =
  coordinate :: "real list option"

text \<open>\<open>info.coordinate?.[i]\<close>: \<open>None\<close> is \<open>undefined\<close>.\<close>

definition coordinateAt :: "PickingInfo \<Rightarrow> nat \<Rightarrow> real option" where
  "coordinateAt info i =
     (case coordinate info of
        None \<Rightarrow> None
      | Some xs \<Rightarrow> (if i < length xs then Some (xs ! i) else None))"

text \<open>\<open>v || 0\<close> and \<open>v ?? 0\<close> on a number that may be undefined.\<close>

definition orZero :: "real option \<Rightarrow> real" where
  "orZero v = (case v of None \<Rightarrow> 0 | Some x \<Rightarrow> (if x = 0 then 0 else x))"

definition nullishZero :: "real option \<Rightarrow> real" where
  "nullishZero v = (case v of None \<Rightarrow> 0 | Some x \<Rightarrow> x)"

text \<open>
  What a handler does to the outside: the calls of the two callbacks of the props, in the
  order they are made.
\<close>

datatype Callback = StateChange EditorState | OrbitAreaComplete OrbitArea

text \<open>
  The layer object: the props the handlers read (the editor state and whether each
  callback is provided) and the private field \<open>_currentAlignment\<close>.
\<close>

record OrbitAreaEditor =
  editorState :: EditorState
  onStateChangeGiven :: bool
  onOrbitAreaCompleteGiven :: bool
  currentAlignment :: OrbitAreaAlignmentEnum

definition newOrbitAreaEditor :: "EditorState \<Rightarrow> bool \<Rightarrow> bool \<Rightarrow> OrbitAreaEditor" where
  "newOrbitAreaEditor es stateChangeGiven completeGiven =
     \<lparr>editorState = es, onStateChangeGiven = stateChangeGiven,
      onOrbitAreaCompleteGiven = completeGiven, currentAlignment = CENTRE\<rparr>"

definition updateState :: "geolib \<Rightarrow> OrbitAreaEditor \<Rightarrow> OrbitAreaEditor" where
  "updateState G this =
     (let this1 = (case alignment (editorState this) of
                     Some a \<Rightarrow> this\<lparr>currentAlignment := a\<rparr>
                   | None \<Rightarrow> this)
      in case (mode (editorState this1), firstPoint (editorState this1),
               secondPoint (editorState this1), mousePosition (editorState this1)) of
           (WIDTH_SELECTION, Some fp, Some sp, Some mp) \<Rightarrow>
             this1\<lparr>currentAlignment := determineAlignmentFromMousePosition G fp sp mp\<rparr>
         | _ \<Rightarrow> this1)"

text \<open>
  \<open>onClick\<close>: the callbacks made and the value returned. The picked point is built
  before the mode is looked at, with 0 for a coordinate that is missing.
\<close>

definition onClick :: "geolib \<Rightarrow> OrbitAreaEditor \<Rightarrow> PickingInfo \<Rightarrow> Callback list \<times> bool" where
  "onClick G this info =
     (if \<not> onStateChangeGiven this then ([], False)
      else
        let es = editorState this;
            pickedPoint = \<lparr>latitude = orZero (coordinateAt info 1),
                           longitude = orZero (coordinateAt info 0)\<rparr>
        in case mode es of
             FIRST_POINT \<Rightarrow>
               ([StateChange (es\<lparr>firstPoint := Some pickedPoint, mode := SECOND_POINT\<rparr>)], True)
           | SECOND_POINT \<Rightarrow>
               ([StateChange (es\<lparr>secondPoint := Some pickedPoint, mode := WIDTH_SELECTION\<rparr>)], True)
           | WIDTH_SELECTION \<Rightarrow>
               (case (firstPoint es, secondPoint es) of
                  (Some fp, Some sp) \<Rightarrow>
                    (let distance = calculateDistance G sp pickedPoint;
                         width' = distance * 2;
                         effectiveAlignment = currentAlignment this;
                         orbitArea = \<lparr>first_point = fp, second_point = sp,
                                      area_width = width', area_alignment = effectiveAlignment\<rparr>
                     in ((if onOrbitAreaCompleteGiven this then [OrbitAreaComplete orbitArea] else [])
                         @ [StateChange (es\<lparr>firstPoint := None, secondPoint := None,
                                             width := None, mousePosition := None,
                                             mode := INACTIVE\<rparr>)], True))
                | _ \<Rightarrow> ([], True))
           | INACTIVE \<Rightarrow> ([], True))"

text \<open>\<open>onHover\<close>: the layer afterwards, the callbacks made and the value returned.\<close>

definition onHover ::
  "geolib \<Rightarrow> OrbitAreaEditor \<Rightarrow> PickingInfo \<Rightarrow> OrbitAreaEditor \<times> Callback list \<times> bool" where
  "onHover G this info =
     (if \<not> onStateChangeGiven this then (this, [], False)
      else if coordinate info = None then (this, [], False)
      else
        let es = editorState this;
            mousePosition' = \<lparr>latitude = nullishZero (coordinateAt info 1),
                              longitude = nullishZero (coordinateAt info 0)\<rparr>
        in case (mode es, firstPoint es, secondPoint es) of
             (WIDTH_SELECTION, Some fp, Some sp) \<Rightarrow>
               (let detectedAlignment = determineAlignmentFromMousePosition G fp sp mousePosition'
                in (this\<lparr>currentAlignment := detectedAlignment\<rparr>,
                    [StateChange (es\<lparr>mousePosition := Some mousePosition'\<rparr>)], True))
           | _ \<Rightarrow> (this, [StateChange (es\<lparr>mousePosition := Some mousePosition'\<rparr>)], True))"

text \<open>
  What happens around the layer between two events, outside the repository's handlers:
  the owner of the editor state stores the state handed to \<open>onStateChange\<close> and renders
  again. Each render builds a new layer object (\<open>new OrbitAreaEditor\<close> in
  OrbitAreaDemo.tsx) with the new state and the same callbacks as props; its private
  field starts at \<open>CENTRE\<close> again, and deck.gl calls \<open>updateState\<close> on it.
\<close>

definition rerender :: "geolib \<Rightarrow> OrbitAreaEditor \<Rightarrow> EditorState \<Rightarrow> OrbitAreaEditor" where
  "rerender G this es =
     updateState G (newOrbitAreaEditor es (onStateChangeGiven this) (onOrbitAreaCompleteGiven this))"

section \<open>The hook (useOrbitAreaEditor.ts)\<close>

text \<open>
  The state of the hook has the fields of \<open>EditorState\<close>, with the alignment always set.
  Each handler gives the state after its call of \<open>setEditorState\<close> (the state it was given
  when it makes no call) and the areas it passes to \<open>onOrbitAreaComplete\<close>, in order.
\<close>

definition initialHookState :: EditorState where
  "initialHookState = \<lparr>mode = INACTIVE, firstPoint = None, secondPoint = None, width = None,
                        mousePosition = None, alignment = Some CENTRE\<rparr>"

definition startEditing :: "EditorState \<Rightarrow> EditorState \<times> OrbitArea list" where
  "startEditing es =
     (\<lparr>mode = FIRST_POINT, firstPoint = None, secondPoint = None, width = None,
       mousePosition = None, alignment = Some CENTRE\<rparr>, [])"

definition cancelEditing :: "EditorState \<Rightarrow> EditorState \<times> OrbitArea list" where
  "cancelEditing es =
     (\<lparr>mode = INACTIVE, firstPoint = None, secondPoint = None, width = None,
       mousePosition = None, alignment = Some CENTRE\<rparr>, [])"

definition handleMapClick :: "EditorState \<Rightarrow> PickingInfo \<Rightarrow> EditorState \<times> OrbitArea list" where
  "handleMapClick es info =
     (if coordinate info = None then (es, [])
      else
        let pickedPoint = \<lparr>latitude = nullishZero (coordinateAt info 1),
                           longitude = nullishZero (coordinateAt info 0)\<rparr>
        in case mode es of
             FIRST_POINT \<Rightarrow> (es\<lparr>firstPoint := Some pickedPoint, mode := SECOND_POINT\<rparr>, [])
           | SECOND_POINT \<Rightarrow> (es\<lparr>secondPoint := Some pickedPoint, mode := WIDTH_SELECTION\<rparr>, [])
           | WIDTH_SELECTION \<Rightarrow>
               (case (firstPoint es, secondPoint es) of
                  (Some fp, Some sp) \<Rightarrow>
                    (\<lparr>mode = INACTIVE, firstPoint = None, secondPoint = None, width = None,
                      mousePosition = None, alignment = alignment es\<rparr>, [])
                | _ \<Rightarrow> (es, []))
           | INACTIVE \<Rightarrow> (es, []))"

definition handleMouseMove :: "EditorState \<Rightarrow> PickingInfo \<Rightarrow> EditorState \<times> OrbitArea list" where
  "handleMouseMove es info =
     (if coordinate info = None then (es, [])
      else
        let mousePosition' = \<lparr>latitude = nullishZero (coordinateAt info 1),
                              longitude = nullishZero (coordinateAt info 0)\<rparr>
        in (es\<lparr>mousePosition := Some mousePosition'\<rparr>, []))"

definition setAlignment :: "EditorState \<Rightarrow> OrbitAreaAlignmentEnum \<Rightarrow> EditorState \<times> OrbitArea list" where
  "setAlignment prevState alignment' = (prevState\<lparr>alignment := Some alignment'\<rparr>, [])"

datatype HookEvent =
  StartEditing
| CancelEditing
| HandleMapClick PickingInfo
| HandleMouseMove PickingInfo
| SetAlignment OrbitAreaAlignmentEnum

fun hookStep :: "EditorState \<Rightarrow> HookEvent \<Rightarrow> EditorState \<times> OrbitArea list" where
  "hookStep es StartEditing = startEditing es"
| "hookStep es CancelEditing = cancelEditing es"
| "hookStep es (HandleMapClick info) = handleMapClick es info"
| "hookStep es (HandleMouseMove info) = handleMouseMove es info"
| "hookStep es (SetAlignment a) = setAlignment es a"

text \<open>
  A run of the hook: the events are handled one after the other, each on the state the
  one before left; the areas delivered to \<open>onOrbitAreaComplete\<close> are collected.
\<close>

fun hookRun :: "EditorState \<Rightarrow> HookEvent list \<Rightarrow> EditorState \<times> OrbitArea list" where
  "hookRun es [] = (es, [])"
| "hookRun es (e # events) =
     (let (es1, completed1) = hookStep es e;
          (es2, completed2) = hookRun es1 events
      in (es2, completed1 @ completed2))"

section \<open>Normalisation of angles\<close>

lemma js_rem_360_nonneg:
  assumes "0 \<le> x"
  shows "js_rem x 360 = x - 360 * of_int \<lfloor>x / 360\<rfloor>"
  using assms by (simp add: js_rem_def)

lemma js_rem_360_neg:
  assumes "x < 0"
  shows "js_rem x 360 = x - 360 * of_int \<lceil>x / 360\<rceil>"
  using assms by (simp add: js_rem_def)

lemma frac_bounds_360:
  fixes x :: real
  shows "0 \<le> x - 360 * of_int \<lfloor>x / 360\<rfloor>" and "x - 360 * of_int \<lfloor>x / 360\<rfloor> < 360"
proof -
  define f :: real where "f = of_int \<lfloor>x / 360\<rfloor>"
  have "f \<le> x / 360" unfolding f_def by (rule of_int_floor_le)
  then have lo: "360 * f \<le> x" by simp
  have "x / 360 < f + 1" unfolding f_def by linarith
  then have hi: "x < 360 * f + 360" by simp
  show "0 \<le> x - 360 * of_int \<lfloor>x / 360\<rfloor>" using lo unfolding f_def by simp
  show "x - 360 * of_int \<lfloor>x / 360\<rfloor> < 360" using hi unfolding f_def by simp
qed

lemma js_rem_small:
  assumes "0 \<le> r" "r < 360"
  shows "js_rem r 360 = r"
proof -
  have "\<lfloor>r / 360\<rfloor> = 0" using assms by (simp add: floor_eq_iff)
  then show ?thesis using assms by (simp add: js_rem_def)
qed

lemma js_rem_shifted:
  assumes "0 \<le> r" "r < 360"
  shows "js_rem (r + 360) 360 = r"
proof -
  have "\<lfloor>(r + 360) / 360\<rfloor> = 1" using assms by (simp add: floor_eq_iff)
  then show ?thesis using assms by (simp add: js_rem_def)
qed

lemma normalizeAngle_floor:
  "normalizeAngle x = x - 360 * of_int \<lfloor>x / 360\<rfloor>"
proof (cases "0 \<le> x")
  case True
  define r where "r = x - 360 * of_int \<lfloor>x / 360\<rfloor>"
  have "0 \<le> r" "r < 360" using frac_bounds_360 [of x] by (simp_all add: r_def)
  then have "js_rem (r + 360) 360 = r" by (rule js_rem_shifted)
  moreover have "js_rem x 360 = r" using True by (simp add: js_rem_360_nonneg r_def)
  ultimately show ?thesis by (simp add: normalizeAngle_def r_def)
next
  case False
  then have neg: "x < 0" by simp
  let ?r = "x - 360 * of_int \<lceil>x / 360\<rceil>"
  show ?thesis
  proof (cases "x / 360 \<in> \<int>")
    case True
    then have "of_int \<lceil>x / 360\<rceil> = x / 360" "of_int \<lfloor>x / 360\<rfloor> = x / 360"
      by (auto simp: Ints_def)
    then have "?r = 0" "x - 360 * of_int \<lfloor>x / 360\<rfloor> = 0" by simp_all
    then show ?thesis
      using neg js_rem_shifted [of 0]
      by (simp add: normalizeAngle_def js_rem_360_neg)
  next
    case False
    then have "x / 360 \<noteq> of_int \<lfloor>x / 360\<rfloor>" by (metis Ints_of_int)
    then have c: "\<lceil>x / 360\<rceil> = \<lfloor>x / 360\<rfloor> + 1"
      by (simp only: ceiling_altdef if_False)
    define r where "r = x - 360 * of_int \<lfloor>x / 360\<rfloor>"
    have "0 \<le> r" "r < 360" using frac_bounds_360 [of x] by (simp_all add: r_def)
    then have small: "js_rem r 360 = r" by (rule js_rem_small)
    have "js_rem x 360 = x - 360 * of_int \<lceil>x / 360\<rceil>" using neg by (rule js_rem_360_neg)
    also have "\<dots> = r - 360" by (simp add: c r_def algebra_simps)
    finally have "js_rem x 360 + 360 = r" by simp
    then show ?thesis using small by (simp add: normalizeAngle_def r_def)
  qed
qed

lemma normalizeAngle_period:
  "normalizeAngle (x + 360 * of_int k) = normalizeAngle x"
proof -
  have "(x + 360 * of_int k) / 360 = x / 360 + of_int k" by simp
  then have "\<lfloor>(x + 360 * of_int k) / 360\<rfloor> = \<lfloor>x / 360\<rfloor> + k"
    by (simp only: floor_add_int)
  then show ?thesis by (simp add: normalizeAngle_floor algebra_simps)
qed

lemma normalizeAngle_bounds:
  "0 \<le> normalizeAngle x" "normalizeAngle x < 360"
  using frac_bounds_360 [of x] by (simp_all add: normalizeAngle_floor)

lemma normalizeAngle_id:
  assumes "0 \<le> x" "x < 360"
  shows "normalizeAngle x = x"
proof -
  have "\<lfloor>x / 360\<rfloor> = 0" using assms by (simp add: floor_eq_iff)
  then show ?thesis by (simp add: normalizeAngle_floor)
qed

section \<open>Normalisation in binary64\<close>

lemma ulp_pos: "0 < ulp x"
  by (simp add: ulp_def)

lemma roundEven_of_int: "roundEven (of_int i) = i"
  by (simp add: roundEven_def)

lemma roundEven_nonneg: "0 \<le> m \<Longrightarrow> 0 \<le> roundEven m"
  by (auto simp add: roundEven_def Let_def)

lemma roundDouble_nonneg:
  assumes "0 \<le> s"
  shows "0 \<le> roundDouble s"
proof -
  have "0 \<le> s / ulp s" using assms ulp_pos [of s] by simp
  then have "0 \<le> roundEven (s / ulp s)" by (rule roundEven_nonneg)
  then show ?thesis using ulp_pos [of s] by (simp add: roundDouble_def)
qed

lemma ulp_binade:
  assumes lo: "2 powi e \<le> \<bar>x\<bar>" and hi: "\<bar>x\<bar> < 2 powi (e + 1)" and normal: "- 1022 \<le> e"
  shows "ulp x = 2 powi (e - 52)"
proof -
  define K :: nat where "K = 1074"
  have Kv: "int K = 1074" by (simp add: K_def)
  define n where "n = \<lfloor>\<bar>x\<bar> * 2 ^ K\<rfloor>"
  have ulp_K: "ulp x = 2 powi (max (bitlen n - 53) 0 - int K)"
    by (simp only: ulp_def n_def K_def of_nat_numeral)
  have p1: "(2::real) powi e * 2 ^ K = 2 ^ nat (e + int K)"
  proof -
    have "(2::real) powi e * 2 ^ K = 2 powi e * 2 powi (int K)" by (simp only: power_int_of_nat)
    also have "\<dots> = 2 powi (e + int K)" by (rule power_int_add [symmetric]) simp
    also have "\<dots> = 2 ^ nat (e + int K)" using normal Kv by (intro power_int_nonneg_exp) simp
    finally show ?thesis .
  qed
  have p2: "(2::real) powi (e + 1) * 2 ^ K = 2 ^ nat (e + 1 + int K)"
  proof -
    have "(2::real) powi (e + 1) * 2 ^ K = 2 powi (e + 1) * 2 powi (int K)"
      by (simp only: power_int_of_nat)
    also have "\<dots> = 2 powi (e + 1 + int K)" by (rule power_int_add [symmetric]) simp
    also have "\<dots> = 2 ^ nat (e + 1 + int K)" using normal Kv by (intro power_int_nonneg_exp) simp
    finally show ?thesis .
  qed
  have pos: "(0::real) < 2 ^ K" by simp
  have "(2::real) powi e * 2 ^ K \<le> \<bar>x\<bar> * 2 ^ K"
    using lo pos by (simp only: mult_le_cancel_right_pos)
  then have "real_of_int (2 ^ nat (e + int K)) \<le> \<bar>x\<bar> * 2 ^ K" unfolding p1 by simp
  then have nlo: "2 ^ nat (e + int K) \<le> n" unfolding n_def by (simp only: le_floor_iff)
  have "\<bar>x\<bar> * 2 ^ K < (2::real) powi (e + 1) * 2 ^ K"
    using hi pos by (simp only: mult_less_cancel_right_pos)
  then have "\<bar>x\<bar> * 2 ^ K < real_of_int (2 ^ nat (e + 1 + int K))" unfolding p2 by simp
  then have nhi: "n < 2 ^ nat (e + 1 + int K)" unfolding n_def by (simp only: floor_less_iff)
  have "bitlen n \<le> e + 1 + int K"
    using nhi normal Kv by (simp only: bitlen_le_iff_power) simp
  moreover have "e + 1 + int K \<le> bitlen n"
  proof -
    have "nat (e + 1 + int K) - 1 = nat (e + int K)" using normal Kv by simp
    then show ?thesis using nlo by (simp only: bitlen_ge_iff_power) simp
  qed
  ultimately have "bitlen n = e + 1 + int K" by simp
  then have "max (bitlen n - 53) 0 - int K = e - 52" using normal Kv by simp
  then show ?thesis by (simp only: ulp_K)
qed


lemma roundDouble_multiple:
  assumes "x / ulp x = of_int i"
  shows "roundDouble x = x"
proof -
  have "roundDouble x = of_int i * ulp x"
    unfolding roundDouble_def assms roundEven_of_int ..
  also have "\<dots> = x" using assms ulp_pos [of x] by (simp add: field_simps)
  finally show ?thesis .
qed

lemma js_rem_lower: "- 360 < js_rem x 360"
proof (cases "0 \<le> x")
  case True
  then show ?thesis using frac_bounds_360(1) [of x] by (simp add: js_rem_360_nonneg)
next
  case False
  then have neg: "x < 0" by simp
  have "of_int \<lceil>x / 360\<rceil> < x / 360 + 1" by linarith
  then have "360 * of_int \<lceil>x / 360\<rceil> < x + 360" by simp
  then show ?thesis using neg by (simp add: js_rem_360_neg)
qed

lemma js_rem_range_nonneg:
  assumes "0 \<le> t"
  shows "0 \<le> js_rem t 360" and "js_rem t 360 < 360"
  using assms frac_bounds_360 [of t] by (simp_all add: js_rem_360_nonneg)

lemma normalizeAngle_double_range:
  "0 \<le> normalizeAngle_double x" "normalizeAngle_double x < 360"
proof -
  have "0 \<le> js_rem x 360 + 360" using js_rem_lower [of x] by simp
  then have "0 \<le> roundDouble (js_rem x 360 + 360)" by (rule roundDouble_nonneg)
  then show "0 \<le> normalizeAngle_double x" "normalizeAngle_double x < 360"
    unfolding normalizeAngle_double_def by (rule js_rem_range_nonneg)+
qed

lemma normalizeAngle_double_exact:
  assumes "roundDouble (js_rem x 360 + 360) = js_rem x 360 + 360"
  shows "normalizeAngle_double x = normalizeAngle x"
  by (simp only: normalizeAngle_double_def normalizeAngle_def assms)

lemma half_ulp_720: "ulp (720 - 1 / 2 ^ 44) = 2 powi (- 43)"
proof -
  have "ulp (720 - 1 / 2 ^ 44) = 2 powi (9 - 52)"
    by (rule ulp_binade) simp_all
  then show ?thesis by simp
qed

lemma round_below_720: "roundDouble (720 - 1 / 2 ^ 44) = 720"
proof -
  have q: "(720 - 1 / 2 ^ 44) / 2 powi (- 43) = (12666373951979519 / 2 :: real)"
    by (simp add: power_int_minus_divide)
  have r: "roundEven (12666373951979519 / 2) = 6333186975989760"
    by (simp add: roundEven_def)
  show ?thesis
    unfolding roundDouble_def half_ulp_720 q r by (simp add: power_int_minus_divide)
qed

lemma ulp_below_360: "ulp (360 - 1 / 2 ^ 44) = 2 powi (- 44)"
proof -
  have "ulp (360 - 1 / 2 ^ 44) = 2 powi (8 - 52)"
    by (rule ulp_binade) simp_all
  then show ?thesis by simp
qed

lemma round_below_360: "roundDouble (360 - 1 / 2 ^ 44) = 360 - 1 / 2 ^ 44"
proof (rule roundDouble_multiple)
  show "(360 - 1 / 2 ^ 44) / ulp (360 - 1 / 2 ^ 44) = of_int 6333186975989759"
    unfolding ulp_below_360 by (simp add: power_int_minus_divide)
qed

lemma ulp_tiny: "ulp (- (1 / 2 ^ 44)) = 2 powi (- 96)"
proof -
  have "ulp (- (1 / 2 ^ 44)) = 2 powi (- 44 - 52)"
    by (rule ulp_binade) (simp_all add: power_int_minus_divide)
  then show ?thesis by simp
qed

lemma round_tiny: "roundDouble (- (1 / 2 ^ 44)) = - (1 / 2 ^ 44)"
proof (rule roundDouble_multiple)
  show "- (1 / 2 ^ 44) / ulp (- (1 / 2 ^ 44)) = of_int (- 4503599627370496)"
    unfolding ulp_tiny by (simp add: power_int_minus_divide)
qed

lemma js_rem_tiny: "js_rem (- (1 / 2 ^ 44)) 360 = - (1 / 2 ^ 44)"
proof -
  have "\<lceil>- (1 / 2 ^ 44) / (360::real)\<rceil> = 0" by (simp add: ceiling_eq_iff)
  then show ?thesis by (simp add: js_rem_def)
qed

lemma js_rem_below_360: "js_rem (360 - 1 / 2 ^ 44) 360 = 360 - 1 / 2 ^ 44"
  by (rule js_rem_small) simp_all

lemma js_rem_720: "js_rem 720 360 = 0"
  by (simp add: js_rem_def)

lemma normalizeAngle_double_tiny:
  "normalizeAngle_double (- (1 / 2 ^ 44)) = 360 - 1 / 2 ^ 44"
proof -
  have "js_rem (- (1 / 2 ^ 44)) 360 + 360 = 360 - 1 / 2 ^ 44"
    unfolding js_rem_tiny by simp
  then show ?thesis
    unfolding normalizeAngle_double_def by (simp only: round_below_360 js_rem_below_360)
qed

lemma normalizeAngle_double_turn:
  "normalizeAngle_double (360 - 1 / 2 ^ 44) = 0"
proof -
  have "js_rem (360 - 1 / 2 ^ 44) 360 + 360 = 720 - 1 / 2 ^ 44"
    unfolding js_rem_below_360 by simp
  then show ?thesis
    unfolding normalizeAngle_double_def by (simp only: round_below_720 js_rem_720)
qed

lemma maxDouble_large: "720 \<le> maxDouble"
proof -
  have "(1::real) \<le> 2 ^ 971" by (rule one_le_power) simp
  then have "(2 ^ 53 - 1) * (1::real) \<le> (2 ^ 53 - 1) * 2 ^ 971"
    by (intro mult_left_mono) simp_all
  then show ?thesis unfolding maxDouble_def by simp
qed

text \<open>
  Claim C8 says that \<open>normalizeAngle\<close> computes \<open>((deg % 360) + 360) % 360\<close>, that its
  result lies in the half-open interval from 0 to 360 for every input, and that adding a
  whole number of turns to the input never changes the result. The last part fails on
  doubles: \<open>- (1 / 2 ^ 44)\<close> and that number plus 360 are both doubles, the first is
  sent to \<open>360 - 1 / 2 ^ 44\<close>, the second to 0, since its sum \<open>720 - 1 / 2 ^ 44\<close> lies
  halfway between two doubles and is rounded to 720.
\<close>

theorem normalizeAngle_not_periodic:
  "isDouble (- (1 / 2 ^ 44))
   \<and> isDouble (- (1 / 2 ^ 44) + 360 * of_int 1)
   \<and> normalizeAngle_double (- (1 / 2 ^ 44)) = 360 - 1 / 2 ^ 44
   \<and> normalizeAngle_double (- (1 / 2 ^ 44) + 360 * of_int 1) = 0
   \<and> normalizeAngle_double (- (1 / 2 ^ 44) + 360 * of_int 1)
       \<noteq> normalizeAngle_double (- (1 / 2 ^ 44))"
proof -
  have arg: "- (1 / 2 ^ 44) + 360 * of_int 1 = (360 - 1 / 2 ^ 44 :: real)" by simp
  have d1: "isDouble (- (1 / 2 ^ 44))"
    using maxDouble_large unfolding isDouble_def round_tiny by simp
  have d2: "isDouble (360 - 1 / 2 ^ 44)"
    using maxDouble_large unfolding isDouble_def round_below_360 by simp
  show ?thesis
    unfolding arg normalizeAngle_double_tiny normalizeAngle_double_turn
    using d1 d2 by simp
qed


lemma roundDouble_of_int:
  assumes "\<bar>i\<bar> < 2 ^ 53"
  shows "roundDouble (of_int i) = of_int i"
proof -
  define K :: nat where "K = 1074"
  have Kv: "int K = 1074" by (simp add: K_def)
  define n where "n = \<bar>i\<bar> * 2 ^ K"
  have fl: "\<lfloor>\<bar>real_of_int i\<bar> * 2 ^ K\<rfloor> = n"
  proof -
    have "\<bar>real_of_int i\<bar> * 2 ^ K = of_int n" by (simp add: n_def)
    then show ?thesis by (simp only: floor_of_int)
  qed
  have ulp_K: "ulp (of_int i) = 2 powi (max (bitlen n - 53) 0 - int K)"
    unfolding fl [symmetric] by (simp only: ulp_def K_def of_nat_numeral)
  have "n < 2 ^ 53 * 2 ^ K" unfolding n_def using assms by simp
  then have "n < 2 ^ nat (53 + int K)" by (simp add: power_add nat_add_distrib)
  then have "bitlen n \<le> 53 + int K" by (simp only: bitlen_le_iff_power) simp
  then have small: "max (bitlen n - 53) 0 \<le> int K" by simp
  define j where "j = nat (int K - max (bitlen n - 53) 0)"
  have "max (bitlen n - 53) 0 - int K = - int j" using small by (simp add: j_def)
  then have u: "ulp (of_int i) = 1 / 2 ^ j"
    unfolding ulp_K by (simp only: power_int_minus_divide power_int_of_nat)
  show ?thesis
  proof (rule roundDouble_multiple)
    show "real_of_int i / ulp (real_of_int i) = of_int (i * 2 ^ j)"
      unfolding u by simp
  qed
qed

lemma js_rem_of_int:
  "js_rem (of_int n) 360 = of_int (n - 360 * (if 0 \<le> real_of_int n / 360
                                                then \<lfloor>real_of_int n / 360\<rfloor>
                                                else \<lceil>real_of_int n / 360\<rceil>))"
  by (simp add: js_rem_def)

lemma normalizeAngle_double_of_int:
  "normalizeAngle_double (of_int n) = normalizeAngle (of_int n)"
proof (rule normalizeAngle_double_exact)
  obtain m :: int where m: "js_rem (of_int n) 360 = of_int m"
    using js_rem_of_int [of n] by blast
  have "- 360 < real_of_int m" using js_rem_lower [of "of_int n"] unfolding m .
  moreover have "real_of_int m < 360"
  proof (cases "0 \<le> real_of_int n")
    case True
    then show ?thesis using js_rem_range_nonneg(2) [of "of_int n"] unfolding m by simp
  next
    case False
    then have neg: "real_of_int n < 0" by simp
    define c :: real where "c = of_int \<lceil>real_of_int n / 360\<rceil>"
    have "real_of_int n / 360 \<le> c" unfolding c_def by (rule le_of_int_ceiling)
    then have "real_of_int n \<le> 360 * c" by (simp add: field_simps)
    then have "js_rem (of_int n) 360 \<le> 0" using neg by (simp add: js_rem_360_neg c_def)
    then show ?thesis unfolding m by simp
  qed
  ultimately have "\<bar>m + 360\<bar> < 2 ^ 53" by simp
  then have "roundDouble (of_int (m + 360)) = of_int (m + 360)" by (rule roundDouble_of_int)
  then show "roundDouble (js_rem (of_int n) 360 + 360) = js_rem (of_int n) 360 + 360"
    unfolding m by simp
qed

text \<open>
  Claim C8, amended. \<open>normalizeAngle\<close> computes \<open>((deg % 360) + 360) % 360\<close> with the
  sum rounded to the nearest double; for every input, negative ones included, the result
  lies in the half-open interval from 0 to 360; and adding a whole number of turns
  \<open>360 * k\<close> to the input leaves the result unchanged whenever the sum is exact for both
  inputs, as it is for every whole number of degrees.
\<close>

theorem normalizeAngle_double_range_periodic:
  "normalizeAngle_double x = js_rem (roundDouble (js_rem x 360 + 360)) 360
   \<and> 0 \<le> normalizeAngle_double x \<and> normalizeAngle_double x < 360
   \<and> (roundDouble (js_rem x 360 + 360) = js_rem x 360 + 360
        \<and> roundDouble (js_rem (x + 360 * of_int k) 360 + 360) = js_rem (x + 360 * of_int k) 360 + 360
      \<longrightarrow> normalizeAngle_double (x + 360 * of_int k) = normalizeAngle_double x)
   \<and> normalizeAngle_double (of_int n + 360 * of_int k) = normalizeAngle_double (of_int n)"
proof (intro conjI impI)
  show "normalizeAngle_double x = js_rem (roundDouble (js_rem x 360 + 360)) 360"
    by (rule normalizeAngle_double_def)
  show "0 \<le> normalizeAngle_double x" "normalizeAngle_double x < 360"
    by (rule normalizeAngle_double_range)+
next
  assume "roundDouble (js_rem x 360 + 360) = js_rem x 360 + 360
        \<and> roundDouble (js_rem (x + 360 * of_int k) 360 + 360) = js_rem (x + 360 * of_int k) 360 + 360"
  then have "normalizeAngle_double x = normalizeAngle x"
    and "normalizeAngle_double (x + 360 * of_int k) = normalizeAngle (x + 360 * of_int k)"
    by (simp_all only: normalizeAngle_double_exact)
  then show "normalizeAngle_double (x + 360 * of_int k) = normalizeAngle_double x"
    by (simp only: normalizeAngle_period)
next
  have "real_of_int n + 360 * of_int k = of_int (n + 360 * k)" by simp
  then have "normalizeAngle_double (of_int n + 360 * of_int k) = normalizeAngle (of_int n + 360 * of_int k)"
    by (simp only: normalizeAngle_double_of_int)
  then show "normalizeAngle_double (of_int n + 360 * of_int k) = normalizeAngle_double (of_int n)"
    by (simp only: normalizeAngle_period normalizeAngle_double_of_int)
qed

lemma ulp_721_half: "ulp (721 / 2) = 2 powi (- 44)"
proof -
  have "ulp (721 / 2) = 2 powi (8 - 52)"
    by (rule ulp_binade) simp_all
  then show ?thesis by simp
qed

lemma round_721_half: "roundDouble (721 / 2) = 721 / 2"
proof (rule roundDouble_multiple)
  show "721 / 2 / ulp (721 / 2) = of_int 6341983069011968"
    unfolding ulp_721_half by (simp add: power_int_minus_divide)
qed

theorem normalizeAngle_double_range_periodic_witness:
  "roundDouble (js_rem (1 / 2) 360 + 360) = js_rem (1 / 2) 360 + 360
   \<and> roundDouble (js_rem (1 / 2 + 360 * of_int 1) 360 + 360) = js_rem (1 / 2 + 360 * of_int 1) 360 + 360
   \<and> normalizeAngle_double (1 / 2 + 360 * of_int 1) = normalizeAngle_double (1 / 2)
   \<and> normalizeAngle_double (1 / 2) = 1 / 2
   \<and> normalizeAngle_double (of_int (- 90) + 360 * of_int 2) = normalizeAngle_double (of_int (- 90))"
proof -
  have r1: "js_rem (1 / 2) 360 = 1 / 2" by (rule js_rem_small) simp_all
  have arg: "1 / 2 + 360 * real_of_int 1 = 721 / 2" by simp
  have r2: "js_rem (721 / 2) 360 = 1 / 2"
    using js_rem_shifted [of "1 / 2"] by simp
  have s: "(1 / 2 + 360 :: real) = 721 / 2" by simp
  have h1: "roundDouble (js_rem (1 / 2) 360 + 360) = js_rem (1 / 2) 360 + 360"
    unfolding r1 s by (rule round_721_half)
  have h2: "roundDouble (js_rem (1 / 2 + 360 * of_int 1) 360 + 360)
              = js_rem (1 / 2 + 360 * of_int 1) 360 + 360"
    unfolding arg r2 s by (rule round_721_half)
  have v: "normalizeAngle_double (1 / 2) = 1 / 2"
    unfolding normalizeAngle_double_def r1 s round_721_half r2 ..
  note inst = normalizeAngle_double_range_periodic [of "1 / 2" 1 "- 90" ]
  show ?thesis using inst h1 h2 v
    normalizeAngle_double_range_periodic [of 0 2 "- 90"] by blast
qed

section \<open>The classifier\<close>

lemma scan_table:
  "scanQuadrants ALIGNMENT_QUADRANTS r =
     (if r \<ge> 315 \<or> r \<le> 45 then Some CENTRE
      else if r \<le> 135 then Some RIGHT
      else if r \<le> 225 then Some CENTRE
      else Some LEFT)"
  by (simp add: ALIGNMENT_QUADRANTS_def)

lemma scan_eq_spec:
  "(case scanQuadrants ALIGNMENT_QUADRANTS r of Some a \<Rightarrow> a | None \<Rightarrow> CENTRE) = specClassify r"
  by (simp add: ALIGNMENT_QUADRANTS_def specClassify_def specScanOrder_def specQuadrantContains_def)

lemma determineAlignment_unfold:
  "determineAlignmentFromMousePosition G f s m =
     (case scanQuadrants ALIGNMENT_QUADRANTS
             (normalizeAngle (calculateBearing G s m - calculateBearing G f s)) of
        Some a \<Rightarrow> a | None \<Rightarrow> CENTRE)"
  by (simp add: determineAlignmentFromMousePosition_def Let_def)

lemma compass_bearing_simp:
  "calculateBearing compassGeolib a b = compassBearing a b"
  by (simp add: calculateBearing_def compassGeolib_def compassBearing_def)

text \<open>
  Claim C1. For distinct axis points and any probe, \<open>determineAlignmentFromMousePosition\<close>
  takes the bearing of the probe from the second axis point, subtracts the bearing of the
  axis and normalises the difference; it answers with the alignment of the first quadrant,
  in the scan order forward centre (315 to 45, wrapping), right (45 to 135), backward
  centre (135 to 225), left (225 to 315), that contains this relative bearing, bounds
  included, the two centre quadrants giving \<open>CENTRE\<close>.
\<close>

theorem determineAlignment_first_matching_quadrant:
  assumes "f \<noteq> s"
  shows "ALIGNMENT_QUADRANTS = specScanOrder
     \<and> determineAlignmentFromMousePosition G f s m =
         specClassify (normalizeAngle (calculateBearing G s m - calculateBearing G f s))
     \<and> determineAlignmentFromMousePosition G f s m =
         (let relative = normalizeAngle (calculateBearing G s m - calculateBearing G f s) in
          if relative \<ge> 315 \<or> relative \<le> 45 then CENTRE
          else if 45 \<le> relative \<and> relative \<le> 135 then RIGHT
          else if 135 \<le> relative \<and> relative \<le> 225 then CENTRE
          else if 225 \<le> relative \<and> relative \<le> 315 then LEFT
          else CENTRE)"
proof (intro conjI)
  show "ALIGNMENT_QUADRANTS = specScanOrder"
    by (simp add: ALIGNMENT_QUADRANTS_def specScanOrder_def)
  show "determineAlignmentFromMousePosition G f s m =
         specClassify (normalizeAngle (calculateBearing G s m - calculateBearing G f s))"
    by (simp only: determineAlignment_unfold scan_eq_spec)
  show "determineAlignmentFromMousePosition G f s m =
         (let relative = normalizeAngle (calculateBearing G s m - calculateBearing G f s) in
          if relative \<ge> 315 \<or> relative \<le> 45 then CENTRE
          else if 45 \<le> relative \<and> relative \<le> 135 then RIGHT
          else if 135 \<le> relative \<and> relative \<le> 225 then CENTRE
          else if 225 \<le> relative \<and> relative \<le> 315 then LEFT
          else CENTRE)"
    by (simp add: determineAlignment_unfold scan_table Let_def)
qed

theorem determineAlignment_first_matching_quadrant_witness:
  "\<lparr>latitude = 0, longitude = 0\<rparr> \<noteq> \<lparr>latitude = 1, longitude = 0\<rparr>
   \<and> determineAlignmentFromMousePosition compassGeolib
        \<lparr>latitude = 0, longitude = 0\<rparr> \<lparr>latitude = 1, longitude = 0\<rparr> \<lparr>latitude = 1, longitude = 1\<rparr>
      = specClassify (normalizeAngle 90)
   \<and> determineAlignmentFromMousePosition compassGeolib
        \<lparr>latitude = 0, longitude = 0\<rparr> \<lparr>latitude = 1, longitude = 0\<rparr> \<lparr>latitude = 1, longitude = 1\<rparr>
      = RIGHT"
proof -
  have ne: "\<lparr>latitude = 0, longitude = 0\<rparr> \<noteq> \<lparr>latitude = 1::real, longitude = 0::real\<rparr>" by simp
  have b1: "calculateBearing compassGeolib \<lparr>latitude = 0, longitude = 0\<rparr> \<lparr>latitude = 1, longitude = 0\<rparr> = 0"
    by (simp add: compass_bearing_simp compassBearing_def)
  have b2: "calculateBearing compassGeolib \<lparr>latitude = 1, longitude = 0\<rparr> \<lparr>latitude = 1, longitude = 1\<rparr> = 90"
    by (simp add: compass_bearing_simp compassBearing_def)
  have n: "normalizeAngle 90 = 90" by (simp add: normalizeAngle_id)
  show ?thesis
    using determineAlignment_first_matching_quadrant [OF ne, of compassGeolib "\<lparr>latitude = 1, longitude = 1\<rparr>"]
    by (auto simp add: b1 b2 n Let_def)
qed

text \<open>
  Claim C6. The bounds of every quadrant are inclusive at both ends, so a relative bearing
  on a shared boundary goes to the quadrant scanned first: a configuration of axis and
  probe with relative bearing exactly 45 is classified \<open>CENTRE\<close>, exactly 135
  \<open>RIGHT\<close>, exactly 225 \<open>CENTRE\<close>, and exactly 315 \<open>CENTRE\<close>.
\<close>

theorem quadrant_boundaries_inclusive:
  "list_all (\<lambda>q. scanQuadrants [q] (minAngle q) = Some (quadrant_alignment q)
                 \<and> scanQuadrants [q] (maxAngle q) = Some (quadrant_alignment q))
            ALIGNMENT_QUADRANTS
   \<and> (normalizeAngle (calculateBearing G s m1 - calculateBearing G f s) = 45
        \<longrightarrow> determineAlignmentFromMousePosition G f s m1 = CENTRE)
   \<and> (normalizeAngle (calculateBearing G s m2 - calculateBearing G f s) = 135
        \<longrightarrow> determineAlignmentFromMousePosition G f s m2 = RIGHT)
   \<and> (normalizeAngle (calculateBearing G s m3 - calculateBearing G f s) = 225
        \<longrightarrow> determineAlignmentFromMousePosition G f s m3 = CENTRE)
   \<and> (normalizeAngle (calculateBearing G s m4 - calculateBearing G f s) = 315
        \<longrightarrow> determineAlignmentFromMousePosition G f s m4 = CENTRE)"
proof (intro conjI impI)
  show "list_all (\<lambda>q. scanQuadrants [q] (minAngle q) = Some (quadrant_alignment q)
                 \<and> scanQuadrants [q] (maxAngle q) = Some (quadrant_alignment q))
            ALIGNMENT_QUADRANTS"
    by (simp add: ALIGNMENT_QUADRANTS_def)
qed (simp_all add: determineAlignment_unfold scan_table)

theorem quadrant_boundaries_inclusive_witness:
  "normalizeAngle (calculateBearing compassGeolib \<lparr>latitude = 1, longitude = 0\<rparr> \<lparr>latitude = 2, longitude = 1\<rparr>
                   - calculateBearing compassGeolib \<lparr>latitude = 0, longitude = 0\<rparr> \<lparr>latitude = 1, longitude = 0\<rparr>) = 45
   \<and> determineAlignmentFromMousePosition compassGeolib
        \<lparr>latitude = 0, longitude = 0\<rparr> \<lparr>latitude = 1, longitude = 0\<rparr> \<lparr>latitude = 2, longitude = 1\<rparr> = CENTRE
   \<and> normalizeAngle (calculateBearing compassGeolib \<lparr>latitude = 1, longitude = 0\<rparr> \<lparr>latitude = 0, longitude = 1\<rparr>
                   - calculateBearing compassGeolib \<lparr>latitude = 0, longitude = 0\<rparr> \<lparr>latitude = 1, longitude = 0\<rparr>) = 135
   \<and> determineAlignmentFromMousePosition compassGeolib
        \<lparr>latitude = 0, longitude = 0\<rparr> \<lparr>latitude = 1, longitude = 0\<rparr> \<lparr>latitude = 0, longitude = 1\<rparr> = RIGHT
   \<and> normalizeAngle (calculateBearing compassGeolib \<lparr>latitude = 1, longitude = 0\<rparr> \<lparr>latitude = 0, longitude = -1\<rparr>
                   - calculateBearing compassGeolib \<lparr>latitude = 0, longitude = 0\<rparr> \<lparr>latitude = 1, longitude = 0\<rparr>) = 225
   \<and> determineAlignmentFromMousePosition compassGeolib
        \<lparr>latitude = 0, longitude = 0\<rparr> \<lparr>latitude = 1, longitude = 0\<rparr> \<lparr>latitude = 0, longitude = -1\<rparr> = CENTRE
   \<and> normalizeAngle (calculateBearing compassGeolib \<lparr>latitude = 1, longitude = 0\<rparr> \<lparr>latitude = 2, longitude = -1\<rparr>
                   - calculateBearing compassGeolib \<lparr>latitude = 0, longitude = 0\<rparr> \<lparr>latitude = 1, longitude = 0\<rparr>) = 315
   \<and> determineAlignmentFromMousePosition compassGeolib
        \<lparr>latitude = 0, longitude = 0\<rparr> \<lparr>latitude = 1, longitude = 0\<rparr> \<lparr>latitude = 2, longitude = -1\<rparr> = CENTRE"
proof -
  have h1: "normalizeAngle (calculateBearing compassGeolib \<lparr>latitude = 1, longitude = 0\<rparr> \<lparr>latitude = 2, longitude = 1\<rparr>
                   - calculateBearing compassGeolib \<lparr>latitude = 0, longitude = 0\<rparr> \<lparr>latitude = 1, longitude = 0\<rparr>) = 45"
    by (simp add: compass_bearing_simp compassBearing_def normalizeAngle_id)
  have h2: "normalizeAngle (calculateBearing compassGeolib \<lparr>latitude = 1, longitude = 0\<rparr> \<lparr>latitude = 0, longitude = 1\<rparr>
                   - calculateBearing compassGeolib \<lparr>latitude = 0, longitude = 0\<rparr> \<lparr>latitude = 1, longitude = 0\<rparr>) = 135"
    by (simp add: compass_bearing_simp compassBearing_def normalizeAngle_id)
  have h3: "normalizeAngle (calculateBearing compassGeolib \<lparr>latitude = 1, longitude = 0\<rparr> \<lparr>latitude = 0, longitude = -1\<rparr>
                   - calculateBearing compassGeolib \<lparr>latitude = 0, longitude = 0\<rparr> \<lparr>latitude = 1, longitude = 0\<rparr>) = 225"
    by (simp add: compass_bearing_simp compassBearing_def normalizeAngle_id)
  have h4: "normalizeAngle (calculateBearing compassGeolib \<lparr>latitude = 1, longitude = 0\<rparr> \<lparr>latitude = 2, longitude = -1\<rparr>
                   - calculateBearing compassGeolib \<lparr>latitude = 0, longitude = 0\<rparr> \<lparr>latitude = 1, longitude = 0\<rparr>) = 315"
    by (simp add: compass_bearing_simp compassBearing_def normalizeAngle_id)
  note inst = quadrant_boundaries_inclusive [of compassGeolib
      "\<lparr>latitude = 1, longitude = 0\<rparr>" "\<lparr>latitude = 2, longitude = 1\<rparr>" "\<lparr>latitude = 0, longitude = 0\<rparr>"
      "\<lparr>latitude = 0, longitude = 1\<rparr>" "\<lparr>latitude = 0, longitude = -1\<rparr>" "\<lparr>latitude = 2, longitude = -1\<rparr>"]
  show ?thesis using inst h1 h2 h3 h4 by blast
qed

text \<open>
  Claim C7. For every relative bearing from 0 up to, not including, 360 at least one of
  the four quadrants matches, so the scan returns exactly one alignment from inside the
  loop; as the relative bearing the classifier computes is normalised, the default branch
  after the loop is never reached.
\<close>

theorem classifier_total:
  assumes "0 \<le> r" and "r < 360"
  shows "(\<exists>q \<in> set ALIGNMENT_QUADRANTS. scanQuadrants [q] r = Some (quadrant_alignment q))
     \<and> (\<exists>!a. scanQuadrants ALIGNMENT_QUADRANTS r = Some a)
     \<and> scanQuadrants ALIGNMENT_QUADRANTS r \<noteq> None
     \<and> scanQuadrants ALIGNMENT_QUADRANTS
          (normalizeAngle (calculateBearing G s m - calculateBearing G f s)) \<noteq> None"
proof (intro conjI)
  show "\<exists>q \<in> set ALIGNMENT_QUADRANTS. scanQuadrants [q] r = Some (quadrant_alignment q)"
    by (simp add: ALIGNMENT_QUADRANTS_def)
  show "\<exists>!a. scanQuadrants ALIGNMENT_QUADRANTS r = Some a"
    by (simp add: scan_table)
  show "scanQuadrants ALIGNMENT_QUADRANTS r \<noteq> None"
    by (simp add: scan_table)
  show "scanQuadrants ALIGNMENT_QUADRANTS
          (normalizeAngle (calculateBearing G s m - calculateBearing G f s)) \<noteq> None"
    by (simp add: scan_table)
qed

theorem classifier_total_witness:
  "(0::real) \<le> 200 \<and> (200::real) < 360
   \<and> (\<exists>q \<in> set ALIGNMENT_QUADRANTS. scanQuadrants [q] 200 = Some (quadrant_alignment q))
   \<and> scanQuadrants ALIGNMENT_QUADRANTS 200 = Some CENTRE"
proof -
  have a: "(0::real) \<le> 200" and b: "(200::real) < 360" by simp_all
  have "scanQuadrants ALIGNMENT_QUADRANTS 200 = Some CENTRE" by (simp add: scan_table)
  then show ?thesis using classifier_total [OF a b] by simp
qed

section \<open>The racetrack polygon\<close>

lemma capLoop_map:
  "capLoop G c r s st n i acc =
     acc @ map (\<lambda>k. calculateDestinationPoint G c (normalizeAngle (s + real k * st)) r) [i..<Suc n]"
proof (induction G c r s st n i acc rule: capLoop.induct)
  case (1 G c r s st n i acc)
  show ?case
  proof (cases "i \<le> n")
    case True
    then have "[i..<Suc n] = i # [Suc i..<Suc n]" by (simp add: upt_conv_Cons)
    then show ?thesis
      using True "1.IH" [OF True refl refl]
      by (subst capLoop.simps) (simp add: Let_def)
  next
    case False
    then show ?thesis by (subst capLoop.simps) simp
  qed
qed

lemma normalizeAngle_opposite:
  "normalizeAngle (b + 90) = normalizeAngle (normalizeAngle (b - 90) + 180)"
proof -
  have "normalizeAngle (b - 90) + 180 = (b + 90) + 360 * of_int (- \<lfloor>(b - 90) / 360\<rfloor>)"
    by (simp add: normalizeAngle_floor)
  then show ?thesis by (simp only: normalizeAngle_period)
qed

lemma sweep_half_turn:
  fixes b :: real
  defines "right \<equiv> normalizeAngle (b + 90)" and "left \<equiv> normalizeAngle (b - 90)"
  shows "(if right > left then left + 360 else left) - right = 180"
    and "(if left > right then right + 360 else right) - left = 180"
proof -
  have lb: "0 \<le> left" "left < 360" using normalizeAngle_bounds [of "b - 90"] by (simp_all add: left_def)
  have r: "right = normalizeAngle (left + 180)"
    unfolding right_def left_def by (rule normalizeAngle_opposite)
  have "right = (if left < 180 then left + 180 else left - 180)"
  proof (cases "left < 180")
    case True
    then show ?thesis using lb r by (simp add: normalizeAngle_id)
  next
    case False
    have eq: "left + 180 = (left - 180) + 360 * real_of_int 1" by simp
    have "normalizeAngle (left + 180) = normalizeAngle (left - 180)"
      by (subst eq) (rule normalizeAngle_period)
    also have "\<dots> = left - 180" using False lb by (simp add: normalizeAngle_id)
    finally show ?thesis using False r by simp
  qed
  then show "(if right > left then left + 360 else left) - right = 180"
    and "(if left > right then right + 360 else right) - left = 180"
    by (simp_all split: if_splits)
qed


lemma point_copy: "\<lparr>latitude = latitude (p::Point), longitude = longitude p\<rparr> = p"
  by simp

lemma close_ring:
  "(case x # rest of [] \<Rightarrow> x # rest
    | first # _ \<Rightarrow> (x # rest) @ [\<lparr>latitude = latitude first, longitude = longitude first\<rparr>])
   = (x # rest) @ [x::Point]"
  by simp

lemma cap_head:
  "map g [0..<Suc n] = g 0 # map g [Suc 0..<Suc n]"
  by (simp add: upt_conv_Cons del: upt_Suc)

lemma polygon_shape:
  "generateOrbitAreaPolygon G f s w al =
     (let b = calculateBearing G f s;
          r = w / 2;
          c = centerline G f s b r al;
          right = normalizeAngle (b + 90);
          left = normalizeAngle (b - 90)
      in map (\<lambda>i. calculateDestinationPoint G (fst c) (normalizeAngle (right + real i * 9)) r) [0..<21]
         @ map (\<lambda>i. calculateDestinationPoint G (snd c) (normalizeAngle (left + real i * 9)) r) [0..<21]
         @ [calculateDestinationPoint G (fst c) (normalizeAngle right) r])"
proof -
  define b where "b = calculateBearing G f s"
  define c where "c = centerline G f s b (w / 2) al"
  define g1 where "g1 = (\<lambda>i. calculateDestinationPoint G (fst c)
                               (normalizeAngle (normalizeAngle (b + 90) + real i * 9)) (w / 2))"
  define g2 where "g2 = (\<lambda>i. calculateDestinationPoint G (snd c)
                               (normalizeAngle (normalizeAngle (b - 90) + real i * 9)) (w / 2))"
  have step: "((if normalizeAngle (b + 90) > normalizeAngle (b - 90)
                then normalizeAngle (b - 90) + 360 else normalizeAngle (b - 90))
               - normalizeAngle (b + 90)) / real 20 = 9"
    using sweep_half_turn(1) [of b] by simp
  have gen: "generateOrbitAreaPolygon G f s w al =
        (case map g1 [0..<Suc 20] @ map g2 [0..<Suc 20] of
           [] \<Rightarrow> map g1 [0..<Suc 20] @ map g2 [0..<Suc 20]
         | first # _ \<Rightarrow> (map g1 [0..<Suc 20] @ map g2 [0..<Suc 20])
                           @ [\<lparr>latitude = latitude first, longitude = longitude first\<rparr>])"
    unfolding generateOrbitAreaPolygon_def Let_def capLoop_map b_def [symmetric] c_def [symmetric] step
    by (simp only: g1_def g2_def append_Nil)
  have "map g1 [0..<Suc 20] @ map g2 [0..<Suc 20]
          = g1 0 # (map g1 [Suc 0..<Suc 20] @ map g2 [0..<Suc 20])"
    by (simp only: cap_head append_Cons)
  then have "generateOrbitAreaPolygon G f s w al
          = (map g1 [0..<Suc 20] @ map g2 [0..<Suc 20]) @ [g1 0]"
    unfolding gen by (simp only: close_ring)
  moreover have "g1 0 = calculateDestinationPoint G (fst c) (normalizeAngle (normalizeAngle (b + 90))) (w / 2)"
    by (simp add: g1_def)
  moreover have "Suc 20 = 21" by simp
  ultimately show ?thesis
    by (simp only: Let_def b_def [symmetric] c_def [symmetric] g1_def g2_def append_assoc)
qed


lemma polygon_length: "length (generateOrbitAreaPolygon G f s w al) = 43"
  by (simp add: polygon_shape Let_def)

lemma polygon_hd:
  "hd (generateOrbitAreaPolygon G f s w al) =
     calculateDestinationPoint G
       (fst (centerline G f s (calculateBearing G f s) (w / 2) al))
       (normalizeAngle (normalizeAngle (calculateBearing G f s + 90))) (w / 2)"
proof -
  have "[0..<21] = 0 # [Suc 0..<21]" by (simp add: upt_conv_Cons)
  then show ?thesis by (simp add: polygon_shape Let_def)
qed

lemma polygon_last:
  "last (generateOrbitAreaPolygon G f s w al) =
     calculateDestinationPoint G
       (fst (centerline G f s (calculateBearing G f s) (w / 2) al))
       (normalizeAngle (normalizeAngle (calculateBearing G f s + 90))) (w / 2)"
  by (simp add: polygon_shape Let_def)

text \<open>
  Claim C4. For every first point, second point, width above 0 and alignment, the sequence
  \<open>generateOrbitAreaPolygon\<close> returns is a closed ring: its last point equals its
  first, and it has \<open>2 * (segments + 1) + 1 = 43\<close> points, each cap being cut into 20
  segments whatever the radius and the distance between the points.
\<close>

theorem polygon_closed_ring:
  assumes "0 < w"
  shows "last (generateOrbitAreaPolygon G f s w al) = hd (generateOrbitAreaPolygon G f s w al)
     \<and> length (generateOrbitAreaPolygon G f s w al) = 2 * (20 + 1) + 1
     \<and> length (generateOrbitAreaPolygon G f s w al) = 43
     \<and> length (capLoop G c r a st 20 0 []) = 20 + 1"
proof (intro conjI)
  show "last (generateOrbitAreaPolygon G f s w al) = hd (generateOrbitAreaPolygon G f s w al)"
    by (simp only: polygon_hd polygon_last)
  show "length (generateOrbitAreaPolygon G f s w al) = 43"
    by (rule polygon_length)
  then show "length (generateOrbitAreaPolygon G f s w al) = 2 * (20 + 1) + 1"
    by simp
  show "length (capLoop G c r a st 20 0 []) = 20 + 1"
    by (simp add: capLoop_map)
qed

theorem polygon_closed_ring_witness:
  "(0::real) < 200
   \<and> length (generateOrbitAreaPolygon compassGeolib \<lparr>latitude = 0, longitude = 0\<rparr>
                \<lparr>latitude = 1, longitude = 0\<rparr> 200 (alignmentValue RIGHT)) = 43
   \<and> last (generateOrbitAreaPolygon compassGeolib \<lparr>latitude = 0, longitude = 0\<rparr>
                \<lparr>latitude = 1, longitude = 0\<rparr> 200 (alignmentValue RIGHT))
     = hd (generateOrbitAreaPolygon compassGeolib \<lparr>latitude = 0, longitude = 0\<rparr>
                \<lparr>latitude = 1, longitude = 0\<rparr> 200 (alignmentValue RIGHT))"
proof -
  have pos: "(0::real) < 200" by simp
  show ?thesis
    using polygon_closed_ring [OF pos, of compassGeolib "\<lparr>latitude = 0, longitude = 0\<rparr>"
        "\<lparr>latitude = 1, longitude = 0\<rparr>" "alignmentValue RIGHT"]
    by simp
qed

lemma normalizeAngle_congruent: "\<exists>k::int. normalizeAngle x = x + 360 * of_int k"
proof
  show "normalizeAngle x = x + 360 * of_int (- \<lfloor>x / 360\<rfloor>)"
    by (simp add: normalizeAngle_floor)
qed

text \<open>
  Claim C5. In \<open>generateOrbitAreaPolygon\<close> the alignment fixes the centerline: for
  \<open>CENTRE\<close> it is the two given points unchanged; for \<open>LEFT\<close> both are moved by the
  radius, half the width, along the bearing of the axis minus 90 degrees, for \<open>RIGHT\<close>
  along the bearing plus 90 degrees (the angle handed on is the normalised one, equal to
  it up to whole turns). Every point generated is the projection, at the distance of the
  radius, from one of the two centerline points; each cap steps from its start angle to
  its end angle in 20 steps, 360 being added to the end angle first when the start angle
  exceeds it.
\<close>

theorem polygon_centerline_and_caps:
  "(let bearing = calculateBearing G f s;
        radius = w / 2;
        line = centerline G f s bearing radius al;
        start1 = normalizeAngle (bearing + 90);
        end1 = normalizeAngle (bearing - 90);
        wrapped1 = (if start1 > end1 then end1 + 360 else end1);
        start2 = normalizeAngle (bearing - 90);
        end2 = normalizeAngle (bearing + 90);
        wrapped2 = (if start2 > end2 then end2 + 360 else end2)
    in centerline G f s bearing radius (alignmentValue CENTRE) = (f, s)
     \<and> centerline G f s bearing radius (alignmentValue LEFT) =
         (calculateDestinationPoint G f (normalizeAngle (bearing - 90)) radius,
          calculateDestinationPoint G s (normalizeAngle (bearing - 90)) radius)
     \<and> centerline G f s bearing radius (alignmentValue RIGHT) =
         (calculateDestinationPoint G f (normalizeAngle (bearing + 90)) radius,
          calculateDestinationPoint G s (normalizeAngle (bearing + 90)) radius)
     \<and> (\<exists>k::int. normalizeAngle (bearing - 90) = bearing - 90 + 360 * of_int k)
     \<and> (\<exists>k::int. normalizeAngle (bearing + 90) = bearing + 90 + 360 * of_int k)
     \<and> generateOrbitAreaPolygon G f s w al =
           map (\<lambda>i. calculateDestinationPoint G (fst line)
                       (normalizeAngle (start1 + real i * ((wrapped1 - start1) / 20))) radius) [0..<21]
         @ map (\<lambda>i. calculateDestinationPoint G (snd line)
                       (normalizeAngle (start2 + real i * ((wrapped2 - start2) / 20))) radius) [0..<21]
         @ [calculateDestinationPoint G (fst line) (normalizeAngle start1) radius]
     \<and> (\<forall>p \<in> set (generateOrbitAreaPolygon G f s w al).
           \<exists>angle. p = calculateDestinationPoint G (fst line) angle radius
                  \<or> p = calculateDestinationPoint G (snd line) angle radius))"
proof -
  define b where "b = calculateBearing G f s"
  have s1: "((if normalizeAngle (b + 90) > normalizeAngle (b - 90)
              then normalizeAngle (b - 90) + 360 else normalizeAngle (b - 90))
             - normalizeAngle (b + 90)) / 20 = 9"
    using sweep_half_turn(1) [of b] by simp
  have s2: "((if normalizeAngle (b - 90) > normalizeAngle (b + 90)
              then normalizeAngle (b + 90) + 360 else normalizeAngle (b + 90))
             - normalizeAngle (b - 90)) / 20 = 9"
    using sweep_half_turn(2) [of b] by simp
  have lines: "centerline G f s b (w / 2) (alignmentValue CENTRE) = (f, s)"
    "centerline G f s b (w / 2) (alignmentValue LEFT) =
         (calculateDestinationPoint G f (normalizeAngle (b - 90)) (w / 2),
          calculateDestinationPoint G s (normalizeAngle (b - 90)) (w / 2))"
    "centerline G f s b (w / 2) (alignmentValue RIGHT) =
         (calculateDestinationPoint G f (normalizeAngle (b + 90)) (w / 2),
          calculateDestinationPoint G s (normalizeAngle (b + 90)) (w / 2))"
    by (simp_all add: centerline_def Let_def)
  have shape: "generateOrbitAreaPolygon G f s w al =
      map (\<lambda>i. calculateDestinationPoint G (fst (centerline G f s b (w / 2) al))
                  (normalizeAngle (normalizeAngle (b + 90) + real i * 9)) (w / 2)) [0..<21]
    @ map (\<lambda>i. calculateDestinationPoint G (snd (centerline G f s b (w / 2) al))
                  (normalizeAngle (normalizeAngle (b - 90) + real i * 9)) (w / 2)) [0..<21]
    @ [calculateDestinationPoint G (fst (centerline G f s b (w / 2) al))
         (normalizeAngle (normalizeAngle (b + 90))) (w / 2)]"
    by (simp only: polygon_shape Let_def b_def)
  have members: "\<forall>p \<in> set (generateOrbitAreaPolygon G f s w al).
           \<exists>angle. p = calculateDestinationPoint G (fst (centerline G f s b (w / 2) al)) angle (w / 2)
                  \<or> p = calculateDestinationPoint G (snd (centerline G f s b (w / 2) al)) angle (w / 2)"
    unfolding shape by auto
  show ?thesis
    unfolding Let_def b_def [symmetric] s1 s2
    using lines shape members normalizeAngle_congruent [of "b - 90"] normalizeAngle_congruent [of "b + 90"]
    by blast
qed


lemma compass_destination_simp:
  "calculateDestinationPoint compassGeolib p angle d = compassDestination p d angle"
  by (simp add: calculateDestinationPoint_def compassGeolib_def Let_def point_copy)

theorem polygon_centerline_and_caps_witness:
  "centerline compassGeolib \<lparr>latitude = 0, longitude = 0\<rparr> \<lparr>latitude = 1, longitude = 0\<rparr> 0 1
       (alignmentValue LEFT)
     = (\<lparr>latitude = 0, longitude = -1\<rparr>, \<lparr>latitude = 1, longitude = -1\<rparr>)
   \<and> \<lparr>latitude = 0, longitude = 0\<rparr>
       \<in> set (generateOrbitAreaPolygon compassGeolib \<lparr>latitude = 0, longitude = 0\<rparr>
                 \<lparr>latitude = 1, longitude = 0\<rparr> 2 (alignmentValue LEFT))
   \<and> (\<exists>angle. \<lparr>latitude = 0, longitude = 0\<rparr>
                  = calculateDestinationPoint compassGeolib \<lparr>latitude = 0, longitude = -1\<rparr> angle 1
              \<or> \<lparr>latitude = 0, longitude = 0\<rparr>
                  = calculateDestinationPoint compassGeolib \<lparr>latitude = 1, longitude = -1\<rparr> angle 1)"
proof -
  let ?f = "\<lparr>latitude = 0, longitude = 0\<rparr> :: Point"
  let ?s = "\<lparr>latitude = 1, longitude = 0\<rparr> :: Point"
  let ?poly = "generateOrbitAreaPolygon compassGeolib ?f ?s 2 (alignmentValue LEFT)"
  have b: "calculateBearing compassGeolib ?f ?s = 0"
    by (simp add: compass_bearing_simp compassBearing_def)
  have n270: "normalizeAngle (- 90) = 270" by (simp add: normalizeAngle_floor)
  have n90: "normalizeAngle 90 = 90" by (simp add: normalizeAngle_id)
  have line: "centerline compassGeolib ?f ?s 0 1 (alignmentValue LEFT)
                = (\<lparr>latitude = 0, longitude = -1\<rparr>, \<lparr>latitude = 1, longitude = -1\<rparr>)"
    by (simp add: centerline_def Let_def n270 compass_destination_simp compassDestination_def)
  have "?poly \<noteq> []" using polygon_length [of compassGeolib ?f ?s 2 "alignmentValue LEFT"] by auto
  then have "hd ?poly \<in> set ?poly" by (rule hd_in_set)
  moreover have "hd ?poly = ?f"
    by (simp add: polygon_hd b line [unfolded alignmentValue.simps] n90
          compass_destination_simp compassDestination_def)
  ultimately have mem: "?f \<in> set ?poly" by simp
  have half: "(2::real) / 2 = 1" by simp
  have ball: "\<forall>p \<in> set ?poly.
           \<exists>angle. p = calculateDestinationPoint compassGeolib
                          (fst (centerline compassGeolib ?f ?s (calculateBearing compassGeolib ?f ?s)
                                  (2 / 2) (alignmentValue LEFT))) angle (2 / 2)
                  \<or> p = calculateDestinationPoint compassGeolib
                          (snd (centerline compassGeolib ?f ?s (calculateBearing compassGeolib ?f ?s)
                                  (2 / 2) (alignmentValue LEFT))) angle (2 / 2)"
    using polygon_centerline_and_caps [of compassGeolib ?f ?s 2 "alignmentValue LEFT"]
    unfolding Let_def by blast
  have inst: "\<forall>p \<in> set ?poly.
           \<exists>angle. p = calculateDestinationPoint compassGeolib \<lparr>latitude = 0, longitude = -1\<rparr> angle 1
                  \<or> p = calculateDestinationPoint compassGeolib \<lparr>latitude = 1, longitude = -1\<rparr> angle 1"
    using ball unfolding b half line fst_conv snd_conv .
  show ?thesis using line mem inst by blast
qed

section \<open>The editing workflow\<close>

lemma picked_point_click:
  assumes "coordinate info = Some (lng # lat # rest)"
  shows "orZero (coordinateAt info 0) = lng" and "orZero (coordinateAt info (Suc 0)) = lat"
  using assms by (simp_all add: orZero_def coordinateAt_def)

lemma picked_point_hover:
  assumes "coordinate info = Some (lng # lat # rest)"
  shows "nullishZero (coordinateAt info 0) = lng" and "nullishZero (coordinateAt info (Suc 0)) = lat"
  using assms by (simp_all add: nullishZero_def coordinateAt_def)

lemma onClick_width_selection:
  assumes "mode (editorState this) = WIDTH_SELECTION"
    and "firstPoint (editorState this) = Some fp"
    and "secondPoint (editorState this) = Some sp"
    and "onStateChangeGiven this"
    and "coordinate info = Some (lng # lat # rest)"
  shows "onClick G this info =
     ((if onOrbitAreaCompleteGiven this
       then [OrbitAreaComplete \<lparr>first_point = fp, second_point = sp,
               area_width = 2 * calculateDistance G sp \<lparr>latitude = lat, longitude = lng\<rparr>,
               area_alignment = currentAlignment this\<rparr>]
       else [])
      @ [StateChange ((editorState this)\<lparr>firstPoint := None, secondPoint := None, width := None,
                                          mousePosition := None, mode := INACTIVE\<rparr>)], True)"
  using assms by (simp add: onClick_def Let_def picked_point_click)

lemma onHover_width_selection:
  assumes "mode (editorState this) = WIDTH_SELECTION"
    and "firstPoint (editorState this) = Some fp"
    and "secondPoint (editorState this) = Some sp"
    and "onStateChangeGiven this"
    and "coordinate hov = Some (qlng # qlat # qrest)"
  shows "onHover G this hov =
     (this\<lparr>currentAlignment :=
              determineAlignmentFromMousePosition G fp sp \<lparr>latitude = qlat, longitude = qlng\<rparr>\<rparr>,
      [StateChange ((editorState this)\<lparr>mousePosition := Some \<lparr>latitude = qlat, longitude = qlng\<rparr>\<rparr>)],
      True)"
  using assms by (simp add: onHover_def Let_def picked_point_hover)

lemma rerender_width_selection:
  assumes "mode es = WIDTH_SELECTION"
    and "firstPoint es = Some fp"
    and "secondPoint es = Some sp"
    and "mousePosition es = Some q"
  shows "rerender G this es =
     this\<lparr>editorState := es,
          currentAlignment := determineAlignmentFromMousePosition G fp sp q\<rparr>"
  using assms
  by (cases this; cases "alignment es")
     (simp_all add: rerender_def updateState_def newOrbitAreaEditor_def)


text \<open>
  Claim C2. In mode \<open>WIDTH_SELECTION\<close>, with both points placed and \<open>onStateChange\<close>
  provided, a click at a point hands to \<open>onOrbitAreaComplete\<close>, when that is provided,
  exactly one area: its points are the placed ones, its width is twice the distance from
  the second point to the click, and its alignment is the one the layer holds, which is
  the one the last hover in this mode computed from the hovered position, not one
  computed from the click; then the state handed to \<open>onStateChange\<close> has mode
  \<open>INACTIVE\<close> and the two points, the width and the mouse position cleared. The
  alignment is the hover's both on the layer as the hover left it and on the layer
  rendered again with the state the hover handed out.
\<close>

theorem width_selection_click_emits_area:
  assumes m: "mode (editorState this) = WIDTH_SELECTION"
    and f: "firstPoint (editorState this) = Some fp"
    and s: "secondPoint (editorState this) = Some sp"
    and cb: "onStateChangeGiven this"
    and click: "coordinate info = Some (lng # lat # rest)"
    and hover: "coordinate hov = Some (qlng # qlat # qrest)"
  shows
    "onClick G this info =
       ((if onOrbitAreaCompleteGiven this
         then [OrbitAreaComplete \<lparr>first_point = fp, second_point = sp,
                 area_width = 2 * calculateDistance G sp \<lparr>latitude = lat, longitude = lng\<rparr>,
                 area_alignment = currentAlignment this\<rparr>]
         else [])
        @ [StateChange ((editorState this)\<lparr>firstPoint := None, secondPoint := None, width := None,
                                            mousePosition := None, mode := INACTIVE\<rparr>)], True)
     \<and> currentAlignment (fst (onHover G this hov)) =
         determineAlignmentFromMousePosition G fp sp \<lparr>latitude = qlat, longitude = qlng\<rparr>
     \<and> onClick G (fst (onHover G this hov)) info =
       ((if onOrbitAreaCompleteGiven this
         then [OrbitAreaComplete \<lparr>first_point = fp, second_point = sp,
                 area_width = 2 * calculateDistance G sp \<lparr>latitude = lat, longitude = lng\<rparr>,
                 area_alignment = determineAlignmentFromMousePosition G fp sp
                                    \<lparr>latitude = qlat, longitude = qlng\<rparr>\<rparr>]
         else [])
        @ [StateChange ((editorState this)\<lparr>firstPoint := None, secondPoint := None, width := None,
                                            mousePosition := None, mode := INACTIVE\<rparr>)], True)
     \<and> onClick G (rerender G (fst (onHover G this hov))
                    ((editorState this)\<lparr>mousePosition := Some \<lparr>latitude = qlat, longitude = qlng\<rparr>\<rparr>))
                 info =
       ((if onOrbitAreaCompleteGiven this
         then [OrbitAreaComplete \<lparr>first_point = fp, second_point = sp,
                 area_width = 2 * calculateDistance G sp \<lparr>latitude = lat, longitude = lng\<rparr>,
                 area_alignment = determineAlignmentFromMousePosition G fp sp
                                    \<lparr>latitude = qlat, longitude = qlng\<rparr>\<rparr>]
         else [])
        @ [StateChange ((editorState this)\<lparr>firstPoint := None, secondPoint := None, width := None,
                                            mousePosition := None, mode := INACTIVE\<rparr>)], True)"
proof (intro conjI)
  let ?q = "\<lparr>latitude = qlat, longitude = qlng\<rparr>"
  let ?hovered = "this\<lparr>currentAlignment := determineAlignmentFromMousePosition G fp sp ?q\<rparr>"
  let ?es = "(editorState this)\<lparr>mousePosition := Some ?q\<rparr>"
  have h: "fst (onHover G this hov) = ?hovered"
    by (simp add: onHover_width_selection [OF m f s cb hover])
  show "onClick G this info =
       ((if onOrbitAreaCompleteGiven this
         then [OrbitAreaComplete \<lparr>first_point = fp, second_point = sp,
                 area_width = 2 * calculateDistance G sp \<lparr>latitude = lat, longitude = lng\<rparr>,
                 area_alignment = currentAlignment this\<rparr>]
         else [])
        @ [StateChange ((editorState this)\<lparr>firstPoint := None, secondPoint := None, width := None,
                                            mousePosition := None, mode := INACTIVE\<rparr>)], True)"
    by (rule onClick_width_selection [OF m f s cb click])
  show "currentAlignment (fst (onHover G this hov)) =
         determineAlignmentFromMousePosition G fp sp ?q"
    by (simp add: h)
  have "onClick G ?hovered info = ((if onOrbitAreaCompleteGiven ?hovered
         then [OrbitAreaComplete \<lparr>first_point = fp, second_point = sp,
                 area_width = 2 * calculateDistance G sp \<lparr>latitude = lat, longitude = lng\<rparr>,
                 area_alignment = currentAlignment ?hovered\<rparr>]
         else [])
        @ [StateChange ((editorState ?hovered)\<lparr>firstPoint := None, secondPoint := None, width := None,
                                            mousePosition := None, mode := INACTIVE\<rparr>)], True)"
    by (rule onClick_width_selection) (simp_all add: m f s cb click)
  then show "onClick G (fst (onHover G this hov)) info =
       ((if onOrbitAreaCompleteGiven this
         then [OrbitAreaComplete \<lparr>first_point = fp, second_point = sp,
                 area_width = 2 * calculateDistance G sp \<lparr>latitude = lat, longitude = lng\<rparr>,
                 area_alignment = determineAlignmentFromMousePosition G fp sp ?q\<rparr>]
         else [])
        @ [StateChange ((editorState this)\<lparr>firstPoint := None, secondPoint := None, width := None,
                                            mousePosition := None, mode := INACTIVE\<rparr>)], True)"
    by (simp add: h)
  have r: "rerender G ?hovered ?es =
             ?hovered\<lparr>editorState := ?es,
                       currentAlignment := determineAlignmentFromMousePosition G fp sp ?q\<rparr>"
    by (rule rerender_width_selection) (simp_all add: m f s)
  let ?rendered = "?hovered\<lparr>editorState := ?es,
                       currentAlignment := determineAlignmentFromMousePosition G fp sp ?q\<rparr>"
  have "onClick G ?rendered info = ((if onOrbitAreaCompleteGiven ?rendered
         then [OrbitAreaComplete \<lparr>first_point = fp, second_point = sp,
                 area_width = 2 * calculateDistance G sp \<lparr>latitude = lat, longitude = lng\<rparr>,
                 area_alignment = currentAlignment ?rendered\<rparr>]
         else [])
        @ [StateChange ((editorState ?rendered)\<lparr>firstPoint := None, secondPoint := None, width := None,
                                            mousePosition := None, mode := INACTIVE\<rparr>)], True)"
    by (rule onClick_width_selection) (simp_all add: m f s cb click)
  then show "onClick G (rerender G (fst (onHover G this hov)) ?es) info =
       ((if onOrbitAreaCompleteGiven this
         then [OrbitAreaComplete \<lparr>first_point = fp, second_point = sp,
                 area_width = 2 * calculateDistance G sp \<lparr>latitude = lat, longitude = lng\<rparr>,
                 area_alignment = determineAlignmentFromMousePosition G fp sp ?q\<rparr>]
         else [])
        @ [StateChange ((editorState this)\<lparr>firstPoint := None, secondPoint := None, width := None,
                                            mousePosition := None, mode := INACTIVE\<rparr>)], True)"
    by (simp add: h r)
qed


lemma compass_distance_simp:
  "calculateDistance compassGeolib a b = compassDistance a b"
  by (simp add: calculateDistance_def compassGeolib_def compassDistance_def)

theorem width_selection_click_emits_area_witness:
  "onClick compassGeolib
     (rerender compassGeolib
        (fst (onHover compassGeolib
                (newOrbitAreaEditor
                   \<lparr>mode = WIDTH_SELECTION, firstPoint = Some \<lparr>latitude = 0, longitude = 0\<rparr>,
                    secondPoint = Some \<lparr>latitude = 1, longitude = 0\<rparr>, width = None,
                    mousePosition = None, alignment = None\<rparr> True True)
                \<lparr>coordinate = Some [1, 1]\<rparr>))
        \<lparr>mode = WIDTH_SELECTION, firstPoint = Some \<lparr>latitude = 0, longitude = 0\<rparr>,
         secondPoint = Some \<lparr>latitude = 1, longitude = 0\<rparr>, width = None,
         mousePosition = Some \<lparr>latitude = 1, longitude = 1\<rparr>, alignment = None\<rparr>)
     \<lparr>coordinate = Some [0, 3]\<rparr>
   = ([OrbitAreaComplete \<lparr>first_point = \<lparr>latitude = 0, longitude = 0\<rparr>,
                          second_point = \<lparr>latitude = 1, longitude = 0\<rparr>,
                          area_width = 4, area_alignment = RIGHT\<rparr>,
       StateChange \<lparr>mode = INACTIVE, firstPoint = None, secondPoint = None, width = None,
                    mousePosition = None, alignment = None\<rparr>], True)
   \<and> determineAlignmentFromMousePosition compassGeolib \<lparr>latitude = 0, longitude = 0\<rparr>
        \<lparr>latitude = 1, longitude = 0\<rparr> \<lparr>latitude = 3, longitude = 0\<rparr> = CENTRE"
proof -
  let ?es = "\<lparr>mode = WIDTH_SELECTION, firstPoint = Some \<lparr>latitude = 0, longitude = 0\<rparr>,
              secondPoint = Some \<lparr>latitude = 1, longitude = 0\<rparr>, width = None,
              mousePosition = None, alignment = None\<rparr>"
  let ?layer = "newOrbitAreaEditor ?es True True"
  have m: "mode (editorState ?layer) = WIDTH_SELECTION"
    and f: "firstPoint (editorState ?layer) = Some \<lparr>latitude = 0, longitude = 0\<rparr>"
    and s: "secondPoint (editorState ?layer) = Some \<lparr>latitude = 1, longitude = 0\<rparr>"
    and cb: "onStateChangeGiven ?layer"
    and given: "onOrbitAreaCompleteGiven ?layer"
    and es: "editorState ?layer = ?es"
    by (simp_all add: newOrbitAreaEditor_def)
  have click: "coordinate \<lparr>coordinate = Some [0, 3]\<rparr> = Some (0 # 3 # [])"
    and hover: "coordinate \<lparr>coordinate = Some [1, 1]\<rparr> = Some (1 # 1 # [])"
    by simp_all
  have right: "determineAlignmentFromMousePosition compassGeolib \<lparr>latitude = 0, longitude = 0\<rparr>
        \<lparr>latitude = 1, longitude = 0\<rparr> \<lparr>latitude = 1, longitude = 1\<rparr> = RIGHT"
    by (simp add: determineAlignment_unfold compass_bearing_simp compassBearing_def
          normalizeAngle_id scan_table)
  have centre: "determineAlignmentFromMousePosition compassGeolib \<lparr>latitude = 0, longitude = 0\<rparr>
        \<lparr>latitude = 1, longitude = 0\<rparr> \<lparr>latitude = 3, longitude = 0\<rparr> = CENTRE"
    by (simp add: determineAlignment_unfold compass_bearing_simp compassBearing_def
          normalizeAngle_id scan_table)
  have dist: "calculateDistance compassGeolib \<lparr>latitude = 1, longitude = 0\<rparr>
                \<lparr>latitude = 3, longitude = 0\<rparr> = 2"
    by (simp add: compass_distance_simp compassDistance_def)
  show ?thesis
    using width_selection_click_emits_area [OF m f s cb click hover, of compassGeolib]
    by (simp add: es given right centre dist)
qed


lemma null_coordinate_ignored_elsewhere:
  assumes "coordinate info = None"
  shows "onHover G this info = (this, [], False)"
    and "handleMapClick es info = (es, [])"
    and "handleMouseMove es info = (es, [])"
  using assms by (simp_all add: onHover_def handleMapClick_def handleMouseMove_def)

text \<open>
  Claim C3 says that a click or hover with no coordinate changes nothing. The hover of the
  layer and both handlers of the hook return at once (lemma
  \<open>null_coordinate_ignored_elsewhere\<close>); \<open>onClick\<close> of the layer has no such guard.
  With no coordinate it takes the point of latitude 0 and longitude 0 as the picked
  point: in mode \<open>FIRST_POINT\<close> that point is placed as the first point, and in mode
  \<open>WIDTH_SELECTION\<close> an area is completed whose width is twice the distance from the
  second point to it.
\<close>

theorem onClick_null_coordinate_places_origin:
  "onClick compassGeolib
     (newOrbitAreaEditor \<lparr>mode = FIRST_POINT, firstPoint = None, secondPoint = None, width = None,
                          mousePosition = None, alignment = None\<rparr> True True)
     \<lparr>coordinate = None\<rparr>
   = ([StateChange \<lparr>mode = SECOND_POINT, firstPoint = Some \<lparr>latitude = 0, longitude = 0\<rparr>,
                    secondPoint = None, width = None, mousePosition = None, alignment = None\<rparr>], True)
   \<and> onClick compassGeolib
     (newOrbitAreaEditor \<lparr>mode = WIDTH_SELECTION, firstPoint = Some \<lparr>latitude = 1, longitude = 1\<rparr>,
                          secondPoint = Some \<lparr>latitude = 2, longitude = 1\<rparr>, width = None,
                          mousePosition = None, alignment = None\<rparr> True True)
     \<lparr>coordinate = None\<rparr>
   = ([OrbitAreaComplete \<lparr>first_point = \<lparr>latitude = 1, longitude = 1\<rparr>,
                          second_point = \<lparr>latitude = 2, longitude = 1\<rparr>,
                          area_width = 6, area_alignment = CENTRE\<rparr>,
       StateChange \<lparr>mode = INACTIVE, firstPoint = None, secondPoint = None, width = None,
                    mousePosition = None, alignment = None\<rparr>], True)"
  by (simp add: onClick_def newOrbitAreaEditor_def Let_def orZero_def coordinateAt_def
        compass_distance_simp compassDistance_def)

lemma hookStep_no_completion: "snd (hookStep es e) = []"
proof (cases e)
  case (HandleMapClick info)
  then show ?thesis
    by (simp add: handleMapClick_def Let_def split: EditorMode.splits option.splits)
qed (simp_all add: startEditing_def cancelEditing_def handleMouseMove_def setAlignment_def Let_def)

lemma hookRun_no_completion: "snd (hookRun es events) = []"
proof (induction events arbitrary: es)
  case Nil
  show ?case by simp
next
  case (Cons e events)
  obtain es1 c1 where step: "hookStep es e = (es1, c1)" by (cases "hookStep es e")
  obtain es2 c2 where run: "hookRun es1 events = (es2, c2)" by (cases "hookRun es1 events")
  have "c1 = []" using hookStep_no_completion [of es e] step by simp
  moreover have "c2 = []" using Cons.IH [of es1] run by simp
  ultimately show ?case by (simp add: step run)
qed

text \<open>
  Claim C10. The hook never calls the \<open>onOrbitAreaComplete\<close> it is given: whatever the
  sequence of events, no area is delivered; its click in mode \<open>WIDTH_SELECTION\<close> with
  both points placed only resets the state to \<open>INACTIVE\<close>, keeping the alignment. The
  area is delivered by \<open>onClick\<close> of the layer, on the same state and click.
\<close>

theorem hook_never_completes:
  "snd (hookRun start events) = []
   \<and> (mode es = WIDTH_SELECTION \<and> firstPoint es = Some fp \<and> secondPoint es = Some sp
        \<and> coordinate info = Some (lng # lat # rest)
      \<longrightarrow> handleMapClick es info =
            (\<lparr>mode = INACTIVE, firstPoint = None, secondPoint = None, width = None,
              mousePosition = None, alignment = alignment es\<rparr>, [])
        \<and> (editorState this = es \<and> onStateChangeGiven this \<and> onOrbitAreaCompleteGiven this
           \<longrightarrow> fst (onClick G this info) =
                 [OrbitAreaComplete \<lparr>first_point = fp, second_point = sp,
                    area_width = 2 * calculateDistance G sp \<lparr>latitude = lat, longitude = lng\<rparr>,
                    area_alignment = currentAlignment this\<rparr>,
                  StateChange (es\<lparr>firstPoint := None, secondPoint := None, width := None,
                                  mousePosition := None, mode := INACTIVE\<rparr>)]))"
proof (intro conjI impI)
  show "snd (hookRun start events) = []" by (rule hookRun_no_completion)
next
  assume "mode es = WIDTH_SELECTION \<and> firstPoint es = Some fp \<and> secondPoint es = Some sp
        \<and> coordinate info = Some (lng # lat # rest)"
  then show "handleMapClick es info =
         (\<lparr>mode = INACTIVE, firstPoint = None, secondPoint = None, width = None,
           mousePosition = None, alignment = alignment es\<rparr>, [])"
    by (simp add: handleMapClick_def Let_def)
next
  assume a: "mode es = WIDTH_SELECTION \<and> firstPoint es = Some fp \<and> secondPoint es = Some sp
        \<and> coordinate info = Some (lng # lat # rest)"
    and b: "editorState this = es \<and> onStateChangeGiven this \<and> onOrbitAreaCompleteGiven this"
  then show "fst (onClick G this info) =
         [OrbitAreaComplete \<lparr>first_point = fp, second_point = sp,
            area_width = 2 * calculateDistance G sp \<lparr>latitude = lat, longitude = lng\<rparr>,
            area_alignment = currentAlignment this\<rparr>,
          StateChange (es\<lparr>firstPoint := None, secondPoint := None, width := None,
                          mousePosition := None, mode := INACTIVE\<rparr>)]"
    using onClick_width_selection [of this fp sp info lng lat rest G] by simp
qed

theorem hook_never_completes_witness:
  "hookRun initialHookState
     [StartEditing,
      HandleMapClick \<lparr>coordinate = Some [0, 0]\<rparr>,
      HandleMapClick \<lparr>coordinate = Some [0, 1]\<rparr>,
      HandleMouseMove \<lparr>coordinate = Some [1, 1]\<rparr>,
      HandleMapClick \<lparr>coordinate = Some [0, 3]\<rparr>]
   = (\<lparr>mode = INACTIVE, firstPoint = None, secondPoint = None, width = None,
       mousePosition = None, alignment = Some CENTRE\<rparr>, [])
   \<and> handleMapClick
       \<lparr>mode = WIDTH_SELECTION, firstPoint = Some \<lparr>latitude = 0, longitude = 0\<rparr>,
        secondPoint = Some \<lparr>latitude = 1, longitude = 0\<rparr>, width = None,
        mousePosition = Some \<lparr>latitude = 1, longitude = 1\<rparr>, alignment = Some CENTRE\<rparr>
       \<lparr>coordinate = Some [0, 3]\<rparr>
     = (\<lparr>mode = INACTIVE, firstPoint = None, secondPoint = None, width = None,
         mousePosition = None, alignment = Some CENTRE\<rparr>, [])
   \<and> fst (onClick compassGeolib
            (newOrbitAreaEditor
               \<lparr>mode = WIDTH_SELECTION, firstPoint = Some \<lparr>latitude = 0, longitude = 0\<rparr>,
                secondPoint = Some \<lparr>latitude = 1, longitude = 0\<rparr>, width = None,
                mousePosition = Some \<lparr>latitude = 1, longitude = 1\<rparr>, alignment = Some CENTRE\<rparr>
               True True)
            \<lparr>coordinate = Some [0, 3]\<rparr>)
     = [OrbitAreaComplete \<lparr>first_point = \<lparr>latitude = 0, longitude = 0\<rparr>,
                           second_point = \<lparr>latitude = 1, longitude = 0\<rparr>,
                           area_width = 4, area_alignment = CENTRE\<rparr>,
        StateChange \<lparr>mode = INACTIVE, firstPoint = None, secondPoint = None, width = None,
                     mousePosition = None, alignment = Some CENTRE\<rparr>]"
proof -
  let ?es = "\<lparr>mode = WIDTH_SELECTION, firstPoint = Some \<lparr>latitude = 0, longitude = 0\<rparr>,
              secondPoint = Some \<lparr>latitude = 1, longitude = 0\<rparr>, width = None,
              mousePosition = Some \<lparr>latitude = 1, longitude = 1\<rparr>, alignment = Some CENTRE\<rparr>"
  let ?layer = "newOrbitAreaEditor ?es True True"
  let ?events = "[StartEditing,
      HandleMapClick \<lparr>coordinate = Some [0, 0]\<rparr>,
      HandleMapClick \<lparr>coordinate = Some [0, 1]\<rparr>,
      HandleMouseMove \<lparr>coordinate = Some [1, 1]\<rparr>,
      HandleMapClick \<lparr>coordinate = Some [0, 3]\<rparr>]"
  have m: "mode ?es = WIDTH_SELECTION"
    and f: "firstPoint ?es = Some \<lparr>latitude = 0, longitude = 0\<rparr>"
    and s: "secondPoint ?es = Some \<lparr>latitude = 1, longitude = 0\<rparr>"
    and click: "coordinate \<lparr>coordinate = Some [0, 3]\<rparr> = Some (0 # 3 # [])"
    and es: "editorState ?layer = ?es"
    and cb: "onStateChangeGiven ?layer"
    and given: "onOrbitAreaCompleteGiven ?layer"
    and cur: "currentAlignment ?layer = CENTRE"
    by (simp_all add: newOrbitAreaEditor_def)
  have dist: "calculateDistance compassGeolib \<lparr>latitude = 1, longitude = 0\<rparr>
                \<lparr>latitude = 3, longitude = 0\<rparr> = 2"
    by (simp add: compass_distance_simp compassDistance_def)
  have final: "fst (hookRun initialHookState ?events)
      = \<lparr>mode = INACTIVE, firstPoint = None, secondPoint = None, width = None,
         mousePosition = None, alignment = Some CENTRE\<rparr>"
    by (simp add: initialHookState_def startEditing_def handleMapClick_def handleMouseMove_def
          Let_def nullishZero_def coordinateAt_def split_def)
  note inst = hook_never_completes [where start = initialHookState and events = ?events
      and es = ?es and fp = "\<lparr>latitude = 0, longitude = 0\<rparr>"
      and sp = "\<lparr>latitude = 1, longitude = 0\<rparr>" and info = "\<lparr>coordinate = Some [0, 3]\<rparr>"
      and lng = 0 and lat = 3 and rest = "[]" and this = ?layer and G = compassGeolib]
  have "snd (hookRun initialHookState ?events) = []" using inst by blast
  with final have run: "hookRun initialHookState ?events
      = (\<lparr>mode = INACTIVE, firstPoint = None, secondPoint = None, width = None,
          mousePosition = None, alignment = Some CENTRE\<rparr>, [])"
    by (simp add: prod_eq_iff)
  have branch: "handleMapClick ?es \<lparr>coordinate = Some [0, 3]\<rparr> =
         (\<lparr>mode = INACTIVE, firstPoint = None, secondPoint = None, width = None,
           mousePosition = None, alignment = alignment ?es\<rparr>, [])"
    using inst m f s click by blast
  have layer: "fst (onClick compassGeolib ?layer \<lparr>coordinate = Some [0, 3]\<rparr>) =
         [OrbitAreaComplete \<lparr>first_point = \<lparr>latitude = 0, longitude = 0\<rparr>,
            second_point = \<lparr>latitude = 1, longitude = 0\<rparr>,
            area_width = 2 * calculateDistance compassGeolib \<lparr>latitude = 1, longitude = 0\<rparr>
                               \<lparr>latitude = 3, longitude = 0\<rparr>,
            area_alignment = currentAlignment ?layer\<rparr>,
          StateChange (?es\<lparr>firstPoint := None, secondPoint := None, width := None,
                          mousePosition := None, mode := INACTIVE\<rparr>)]"
    using inst m f s click es cb given by blast
  show ?thesis using run branch layer by (simp add: cur dist)
qed

section \<open>The round trip of distance, bearing and destination\<close>

lemma toRad_toDeg [simp]: "toRad (toDeg x) = x"
  by (simp add: toRad_def toDeg_def)

lemma toDeg_toRad [simp]: "toDeg (toRad x) = x"
  by (simp add: toRad_def toDeg_def)

lemma atan2_range: "- pi < atan2 y x" "atan2 y x \<le> pi"
proof -
  have b: "- (pi / 2) < arctan (y / x)" "arctan (y / x) < pi / 2"
    by (rule arctan_lbound, rule arctan_ubound)
  have "- pi < atan2 y x \<and> atan2 y x \<le> pi"
  proof (cases "0 < x")
    case True
    then show ?thesis using b pi_gt_zero by (simp add: atan2_def)
  next
    case False
    show ?thesis
    proof (cases "x < 0")
      case xneg: True
      show ?thesis
      proof (cases "0 \<le> y")
        case True
        then have "y / x \<le> 0" using xneg by (simp add: divide_nonneg_neg)
        then have "arctan (y / x) \<le> 0" by simp
        then show ?thesis using xneg True b pi_gt_zero by (simp add: atan2_def)
      next
        case False
        then have "0 < y / x" using xneg by (simp add: divide_neg_neg)
        then have "0 < arctan (y / x)" by simp
        then show ?thesis using xneg False b pi_gt_zero by (simp add: atan2_def)
      qed
    next
      case xz: False
      have "atan2 y x = pi / 2 \<or> atan2 y x = - (pi / 2) \<or> atan2 y x = 0"
        using xz False by (simp add: atan2_def)
      then show ?thesis using pi_gt_zero by (elim disjE; intro conjI; linarith)
    qed
  qed
  then show "- pi < atan2 y x" "atan2 y x \<le> pi" by simp_all
qed

lemma sqrt_sum_pos:
  fixes x y :: real
  assumes "0 < x"
  shows "sqrt (x\<^sup>2 + y\<^sup>2) = x * sqrt (1 + (y / x)\<^sup>2)"
proof -
  have "x\<^sup>2 + y\<^sup>2 = x\<^sup>2 * (1 + (y / x)\<^sup>2)"
    using assms by (simp add: field_simps power2_eq_square)
  then show ?thesis using assms by (simp add: real_sqrt_mult)
qed

lemma sqrt_sum_neg:
  fixes x y :: real
  assumes "x < 0"
  shows "sqrt (x\<^sup>2 + y\<^sup>2) = - x * sqrt (1 + (y / x)\<^sup>2)"
proof -
  have "x\<^sup>2 + y\<^sup>2 = x\<^sup>2 * (1 + (y / x)\<^sup>2)"
    using assms by (simp add: field_simps power2_eq_square)
  then show ?thesis using assms by (simp add: real_sqrt_mult)
qed

lemma sqrt_one_plus_pos: "0 < sqrt (1 + (t::real)\<^sup>2)"
  by (simp add: add_pos_nonneg)

lemma cos_atan2: "cos (atan2 y x) * sqrt (x\<^sup>2 + y\<^sup>2) = x"
proof (cases "0 < x")
  case True
  then show ?thesis
    using sqrt_one_plus_pos [of "y / x"]
    by (simp add: atan2_def cos_arctan sqrt_sum_pos)
next
  case False
  show ?thesis
  proof (cases "x < 0")
    case True
    then show ?thesis
      using sqrt_one_plus_pos [of "y / x"]
      by (simp add: atan2_def cos_arctan sqrt_sum_neg cos_add cos_diff)
  next
    case xz: False
    then have "x = 0" using False by simp
    then show ?thesis by (simp add: atan2_def)
  qed
qed

lemma sin_atan2: "sin (atan2 y x) * sqrt (x\<^sup>2 + y\<^sup>2) = y"
proof (cases "0 < x")
  case True
  then show ?thesis
    using sqrt_one_plus_pos [of "y / x"]
    by (simp add: atan2_def sin_arctan sqrt_sum_pos)
next
  case False
  show ?thesis
  proof (cases "x < 0")
    case True
    then show ?thesis
      using sqrt_one_plus_pos [of "y / x"]
      by (simp add: atan2_def sin_arctan sqrt_sum_neg sin_add sin_diff)
  next
    case xz: False
    then have "x = 0" using False by simp
    then show ?thesis by (simp add: atan2_def)
  qed
qed


lemma angle_unique:
  assumes "- pi < a" "a \<le> pi" "- pi < b" "b \<le> pi" "cos a = cos b" "sin a = sin b"
  shows "a = b"
proof -
  have "cos (a - b) = cos b * cos b + sin b * sin b" using assms(5,6) by (simp add: cos_diff)
  also have "\<dots> = 1" using sin_cos_squared_add3 [of b] by (simp add: add.commute)
  finally have "cos (a - b) = 1" .
  then obtain n :: int where n: "a - b = of_int n * 2 * pi" using cos_one_2pi_int by blast
  have "\<bar>a - b\<bar> < 2 * pi" using assms(1-4) by linarith
  then have "\<bar>of_int n * (2 * pi)\<bar> < 1 * (2 * pi)" using n by (simp add: mult.assoc)
  then have "\<bar>real_of_int n\<bar> < 1" using pi_gt_zero by (simp add: abs_mult)
  then have "n = 0" by linarith
  then show ?thesis using n by simp
qed

lemma atan2_polar:
  assumes "0 < k" "- pi < t" "t \<le> pi"
  shows "atan2 (k * sin t) (k * cos t) = t"
proof -
  have "(k * cos t)\<^sup>2 + (k * sin t)\<^sup>2 = k\<^sup>2 * ((cos t)\<^sup>2 + (sin t)\<^sup>2)"
    by (simp only: power_mult_distrib distrib_left)
  also have "\<dots> = k\<^sup>2" by simp
  finally have r: "sqrt ((k * cos t)\<^sup>2 + (k * sin t)\<^sup>2) = k"
    using assms(1) by simp
  have "cos (atan2 (k * sin t) (k * cos t)) * k = k * cos t"
    using cos_atan2 [of "k * sin t" "k * cos t"] unfolding r .
  then have c: "cos (atan2 (k * sin t) (k * cos t)) = cos t" using assms(1) by simp
  have "sin (atan2 (k * sin t) (k * cos t)) * k = k * sin t"
    using sin_atan2 [of "k * sin t" "k * cos t"] unfolding r .
  then have s: "sin (atan2 (k * sin t) (k * cos t)) = sin t" using assms(1) by simp
  show ?thesis
    by (rule angle_unique [OF atan2_range assms(2,3) c s])
qed

lemma rotation_norm:
  fixes a b c d :: real
  shows "(a * c - b * d)\<^sup>2 + (b * c + a * d)\<^sup>2 = (a\<^sup>2 + b\<^sup>2) * (c\<^sup>2 + d\<^sup>2)"
  by (simp add: power2_eq_square algebra_simps)

lemma sphere_unit:
  fixes p dl t :: real
  defines "S \<equiv> sin p * cos dl + cos p * sin dl * cos t"
    and "A \<equiv> cos dl * cos p - sin p * sin dl * cos t"
  shows "A\<^sup>2 + (sin t * sin dl)\<^sup>2 + S\<^sup>2 = 1"
proof -
  have "A\<^sup>2 + S\<^sup>2 = ((cos p)\<^sup>2 + (sin p)\<^sup>2) * ((cos dl)\<^sup>2 + (sin dl * cos t)\<^sup>2)"
    using rotation_norm [of "cos p" "cos dl" "sin p" "sin dl * cos t"]
    by (simp add: A_def S_def mult.commute mult.left_commute)
  also have "\<dots> = (cos dl)\<^sup>2 + (sin dl)\<^sup>2 * (cos t)\<^sup>2"
    by (simp add: power_mult_distrib)
  finally have e: "A\<^sup>2 + S\<^sup>2 = (cos dl)\<^sup>2 + (sin dl)\<^sup>2 * (cos t)\<^sup>2" .
  have "A\<^sup>2 + (sin t * sin dl)\<^sup>2 + S\<^sup>2 = (A\<^sup>2 + S\<^sup>2) + (sin dl)\<^sup>2 * (sin t)\<^sup>2"
    by (simp only: power_mult_distrib mult.commute add.assoc add.commute add.left_commute)
  also have "\<dots> = (cos dl)\<^sup>2 + (sin dl)\<^sup>2 * ((cos t)\<^sup>2 + (sin t)\<^sup>2)"
    unfolding e by (simp only: distrib_left add.assoc)
  also have "\<dots> = 1" by simp
  finally show ?thesis .
qed


lemma mix_cos:
  fixes a b c d :: real
  shows "b * (b * c + a * d) + a * (c * a - b * d) = c * (b\<^sup>2 + a\<^sup>2)"
  by (simp add: algebra_simps power2_eq_square)

lemma mix_sin:
  fixes a b c d :: real
  shows "a * (b * c + a * d) - b * (c * a - b * d) = d * (b\<^sup>2 + a\<^sup>2)"
  by (simp add: algebra_simps power2_eq_square)

text \<open>The three products the round trip turns on, for a start at latitude \<open>p\<close>.\<close>

lemma sphere_products:
  fixes p dl t :: real
  assumes cp: "0 \<le> cos p"
  defines "S \<equiv> sin p * cos dl + cos p * sin dl * cos t"
    and "A \<equiv> cos dl * cos p - sin p * sin dl * cos t"
  defines "x \<equiv> cos dl - sin p * sin (arcsin S)"
    and "y \<equiv> sin t * sin dl * cos p"
  shows "sin (arcsin S) = S"
    and "cos p * cos (arcsin S) * cos (atan2 y x) = cos p * A"
    and "cos p * cos (arcsin S) * sin (atan2 y x) = cos p * (sin t * sin dl)"
    and "sin p * S + cos p * A = cos dl"
    and "cos p * S - sin p * A = sin dl * cos t"
proof -
  have unit: "A\<^sup>2 + (sin t * sin dl)\<^sup>2 + S\<^sup>2 = 1"
    unfolding A_def S_def by (rule sphere_unit)
  have "S\<^sup>2 \<le> 1"
  proof -
    have "0 \<le> A\<^sup>2 + (sin t * sin dl)\<^sup>2" by simp
    then show ?thesis using unit by linarith
  qed
  then have "\<bar>S\<bar> \<le> 1" by (simp only: abs_square_le_1)
  then have bound: "- 1 \<le> S" "S \<le> 1" by linarith+
  show sinS: "sin (arcsin S) = S" using bound by simp
  have pyth: "(sin p)\<^sup>2 = 1 - (cos p)\<^sup>2" by (simp add: sin_squared_eq)
  have xA: "x = cos p * A"
  proof -
    have "x = cos dl - sin p * S" unfolding x_def by (simp only: sinS)
    also have "\<dots> = cos dl * (1 - (sin p)\<^sup>2) - sin p * cos p * sin dl * cos t"
      unfolding S_def by (simp add: algebra_simps power2_eq_square)
    also have "\<dots> = cos p * A"
      unfolding pyth A_def by (simp add: algebra_simps power2_eq_square)
    finally show ?thesis .
  qed
  have cosS: "cos (arcsin S) = sqrt (1 - S\<^sup>2)" using bound by (simp add: cos_arcsin)
  have "x\<^sup>2 + y\<^sup>2 = (cos p)\<^sup>2 * (A\<^sup>2 + (sin t * sin dl)\<^sup>2)"
    unfolding xA y_def by (simp add: algebra_simps power2_eq_square)
  also have "\<dots> = (cos p)\<^sup>2 * (1 - S\<^sup>2)" using unit by simp
  finally have "sqrt (x\<^sup>2 + y\<^sup>2) = cos p * sqrt (1 - S\<^sup>2)"
    using cp by (simp add: real_sqrt_mult)
  then have r: "sqrt (x\<^sup>2 + y\<^sup>2) = cos p * cos (arcsin S)" unfolding cosS .
  have "cos p * cos (arcsin S) * cos (atan2 y x) = cos (atan2 y x) * sqrt (x\<^sup>2 + y\<^sup>2)"
    unfolding r by simp
  also have "\<dots> = x" by (rule cos_atan2)
  finally show "cos p * cos (arcsin S) * cos (atan2 y x) = cos p * A" unfolding xA .
  have "cos p * cos (arcsin S) * sin (atan2 y x) = sin (atan2 y x) * sqrt (x\<^sup>2 + y\<^sup>2)"
    unfolding r by simp
  also have "\<dots> = y" by (rule sin_atan2)
  finally show "cos p * cos (arcsin S) * sin (atan2 y x) = cos p * (sin t * sin dl)"
    unfolding y_def by (simp add: mult.commute mult.left_commute)
  have S': "S = sin p * cos dl + cos p * (sin dl * cos t)"
    and A': "A = cos dl * cos p - sin p * (sin dl * cos t)"
    unfolding S_def A_def by (simp_all only: mult.assoc)
  have "sin p * S + cos p * A = cos dl * ((sin p)\<^sup>2 + (cos p)\<^sup>2)"
    unfolding S' A' by (rule mix_cos)
  then show "sin p * S + cos p * A = cos dl" by simp
  have "cos p * S - sin p * A = (sin dl * cos t) * ((sin p)\<^sup>2 + (cos p)\<^sup>2)"
    unfolding S' A' by (rule mix_sin)
  then show "cos p * S - sin p * A = sin dl * cos t" by simp
qed


lemma toRad_diff: "toRad (a - b) = toRad a - toRad b"
  by (simp add: toRad_def diff_divide_distrib left_diff_distrib)

lemma toRad_latitude:
  assumes "- 90 \<le> lat" "lat \<le> 90"
  shows "- (pi / 2) \<le> toRad lat" "toRad lat \<le> pi / 2"
proof -
  define u where "u = lat * pi"
  have hi: "u \<le> 90 * pi" unfolding u_def using assms(2) pi_gt_zero by (intro mult_right_mono) simp_all
  have lo: "- 90 * pi \<le> u" unfolding u_def using assms(1) pi_gt_zero by (intro mult_right_mono) simp_all
  have r: "toRad lat = u / 180" by (simp only: toRad_def u_def)
  show "- (pi / 2) \<le> toRad lat" unfolding r using lo by linarith
  show "toRad lat \<le> pi / 2" unfolding r using hi by linarith
qed

lemma wrapped_longitude:
  "\<exists>n::int. js_rem (l + 3 * pi) (2 * pi) - pi = l + 2 * pi * of_int n"
proof -
  define k :: int where "k = (if 0 \<le> (l + 3 * pi) / (2 * pi) then \<lfloor>(l + 3 * pi) / (2 * pi)\<rfloor>
                               else \<lceil>(l + 3 * pi) / (2 * pi)\<rceil>)"
  have "js_rem (l + 3 * pi) (2 * pi) = l + 3 * pi - 2 * pi * of_int k"
    by (simp only: js_rem_def k_def)
  then have "js_rem (l + 3 * pi) (2 * pi) - pi = l + 2 * pi * of_int (1 - k)"
    by (simp add: algebra_simps)
  then show ?thesis ..
qed

lemma sphere_destination_latitude:
  "toRad (latitude (sphereDestination R origin d b))
     = arcsin (sin (toRad (latitude origin)) * cos (d / R)
               + cos (toRad (latitude origin)) * sin (d / R) * cos (toRad b))"
  by (simp add: sphereDestination_def Let_def)

lemma sphere_destination_longitude:
  "\<exists>n::int. toRad (longitude (sphereDestination R origin d b) - longitude origin)
     = atan2 (sin (toRad b) * sin (d / R) * cos (toRad (latitude origin)))
             (cos (d / R) - sin (toRad (latitude origin))
                * sin (arcsin (sin (toRad (latitude origin)) * cos (d / R)
                               + cos (toRad (latitude origin)) * sin (d / R) * cos (toRad b))))
       + 2 * pi * of_int n"
proof -
  define l1 where "l1 = toRad (longitude origin)"
  define az where "az = atan2 (sin (toRad b) * sin (d / R) * cos (toRad (latitude origin)))
             (cos (d / R) - sin (toRad (latitude origin))
                * sin (arcsin (sin (toRad (latitude origin)) * cos (d / R)
                               + cos (toRad (latitude origin)) * sin (d / R) * cos (toRad b))))"
  show ?thesis
  proof (cases "toDeg (l1 + az) < - 180 \<or> 180 < toDeg (l1 + az)")
    case True
    obtain n :: int where n: "js_rem (l1 + az + 3 * pi) (2 * pi) - pi = l1 + az + 2 * pi * of_int n"
      using wrapped_longitude [of "l1 + az"] by blast
    have "toRad (longitude (sphereDestination R origin d b) - longitude origin)
            = js_rem (l1 + az + 3 * pi) (2 * pi) - pi - l1"
      using True by (simp add: sphereDestination_def Let_def toRad_diff l1_def az_def)
    also have "\<dots> = az + 2 * pi * of_int n" unfolding n by simp
    finally show ?thesis unfolding az_def ..
  next
    case False
    have "toRad (longitude (sphereDestination R origin d b) - longitude origin) = l1 + az - l1"
      using False by (simp add: sphereDestination_def Let_def toRad_diff l1_def az_def)
    also have "\<dots> = az + 2 * pi * of_int 0" by simp
    finally show ?thesis unfolding az_def ..
  qed
qed

lemma shifted_angle:
  "cos (a + 2 * pi * of_int n) = cos a" "sin (a + 2 * pi * of_int n) = sin a"
  by (simp_all add: cos_add sin_add)

lemma roundTo_near:
  assumes "0 < accuracy"
  shows "\<bar>roundTo accuracy v - v\<bar> \<le> accuracy / 2"
proof -
  define z where "z = v / accuracy + 1 / 2"
  have "of_int \<lfloor>z\<rfloor> \<le> z" "z < of_int \<lfloor>z\<rfloor> + 1" by linarith+
  then have "\<bar>of_int \<lfloor>z\<rfloor> - v / accuracy\<bar> \<le> 1 / 2" unfolding z_def by linarith
  then have "\<bar>of_int \<lfloor>z\<rfloor> - v / accuracy\<bar> * accuracy \<le> 1 / 2 * accuracy"
    using assms by (intro mult_right_mono) simp_all
  moreover have "\<bar>of_int \<lfloor>z\<rfloor> - v / accuracy\<bar> * accuracy = \<bar>roundTo accuracy v - v\<bar>"
  proof -
    have "\<bar>of_int \<lfloor>z\<rfloor> - v / accuracy\<bar> * accuracy = \<bar>(of_int \<lfloor>z\<rfloor> - v / accuracy) * accuracy\<bar>"
      using assms by (simp add: abs_mult)
    also have "(of_int \<lfloor>z\<rfloor> - v / accuracy) * accuracy = roundTo accuracy v - v"
      using assms by (simp add: roundTo_def z_def left_diff_distrib)
    finally show ?thesis .
  qed
  ultimately show ?thesis by simp
qed

text \<open>The distance before it is rounded, after a projection from the same start.\<close>

lemma sphere_angle_roundtrip:
  assumes R: "0 < R" and lat: "- 90 \<le> latitude origin" "latitude origin \<le> 90"
    and d: "0 \<le> d" "d \<le> pi * R"
  shows "sphereDistance Rd accuracy origin (sphereDestination R origin d b)
           = roundTo accuracy (Rd * (d / R))"
proof -
  define p where "p = toRad (latitude origin)"
  define dl where "dl = d / R"
  define t where "t = toRad b"
  define S where "S = sin p * cos dl + cos p * sin dl * cos t"
  define A where "A = cos dl * cos p - sin p * sin dl * cos t"
  define x where "x = cos dl - sin p * sin (arcsin S)"
  define y where "y = sin t * sin dl * cos p"
  define dlam where "dlam = toRad (longitude (sphereDestination R origin d b) - longitude origin)"
  have cp: "0 \<le> cos p"
    unfolding p_def using toRad_latitude [OF lat] by (intro cos_ge_zero)
  note prod = sphere_products [OF cp, of dl t, folded S_def A_def, folded x_def y_def]
  obtain n :: int where "dlam = atan2 y x + 2 * pi * of_int n"
    using sphere_destination_longitude [of R origin d b]
    unfolding dlam_def p_def dl_def t_def S_def x_def y_def by blast
  then have cd: "cos dlam = cos (atan2 y x)" by (simp only: shifted_angle)
  have lat2: "toRad (latitude (sphereDestination R origin d b)) = arcsin S"
    unfolding sphere_destination_latitude by (simp only: p_def dl_def t_def S_def)
  have "sin p * sin (arcsin S) + cos p * cos (arcsin S) * cos dlam = sin p * S + cos p * A"
    unfolding cd using prod(1,2) by simp
  also have "\<dots> = cos dl" by (rule prod(4))
  finally have inner: "sin p * sin (arcsin S) + cos p * cos (arcsin S) * cos dlam = cos dl" .
  have dl_range: "0 \<le> dl" "dl \<le> pi"
    using R d by (simp_all add: dl_def field_simps)
  have clamp: "clampUnit (cos dl) = cos dl" by (simp add: clampUnit_def)
  have "sphereDistance Rd accuracy origin (sphereDestination R origin d b)
          = roundTo accuracy (Rd * arccos (clampUnit
              (sin p * sin (arcsin S) + cos p * cos (arcsin S) * cos dlam)))"
    unfolding sphereDistance_def Let_def lat2 by (simp only: p_def dlam_def)
  also have "\<dots> = roundTo accuracy (Rd * dl)"
    unfolding inner clamp using dl_range by (simp add: arccos_cos)
  finally show ?thesis unfolding dl_def .
qed

lemma toRad_bearing:
  assumes "0 \<le> b" "b < 360"
  shows "0 \<le> toRad b" "toRad b < 2 * pi"
proof -
  define u where "u = b * pi"
  have hi: "u < 360 * pi" unfolding u_def using assms(2) pi_gt_zero by (intro mult_strict_right_mono)
  have lo: "0 \<le> u" unfolding u_def using assms(1) pi_gt_zero by simp
  have r: "toRad b = u / 180" by (simp only: toRad_def u_def)
  show "0 \<le> toRad b" unfolding r using lo by linarith
  show "toRad b < 2 * pi" unfolding r using hi by linarith
qed

lemma normalized_bearing:
  assumes "0 \<le> b" "b < 360" "0 < k"
  shows "js_rem (toDeg (atan2 (k * sin (toRad b)) (k * cos (toRad b))) + 360) 360 = b"
proof (cases "toRad b \<le> pi")
  case True
  have "- pi < toRad b" using toRad_bearing(1) [OF assms(1,2)] pi_gt_zero by linarith
  then have "atan2 (k * sin (toRad b)) (k * cos (toRad b)) = toRad b"
    using assms(3) True by (intro atan2_polar)
  then show ?thesis using assms(1,2) by (simp add: js_rem_shifted)
next
  case False
  define t' where "t' = toRad b - 2 * pi"
  have range: "- pi < t'" "t' \<le> pi"
    using False toRad_bearing(2) [OF assms(1,2)] pi_gt_zero unfolding t'_def by linarith+
  have "sin (toRad b) = sin t'" "cos (toRad b) = cos t'"
    unfolding t'_def by (simp_all add: sin_diff cos_diff)
  then have "atan2 (k * sin (toRad b)) (k * cos (toRad b)) = t'"
    using atan2_polar [OF assms(3) range] by simp
  moreover have "toDeg t' + 360 = b"
    using pi_gt_zero by (simp add: t'_def toDeg_def toRad_def field_simps)
  ultimately have "js_rem (toDeg (atan2 (k * sin (toRad b)) (k * cos (toRad b))) + 360) 360
      = js_rem b 360" by simp
  also have "\<dots> = b" using assms(1,2) by (rule js_rem_small)
  finally show ?thesis .
qed

lemma sphere_bearing_roundtrip:
  assumes R: "0 < R" and lat: "- 90 < latitude origin" "latitude origin < 90"
    and b: "0 \<le> b" "b < 360" and d: "0 < d" "d < pi * R"
  shows "sphereBearing origin (sphereDestination R origin d b) = b"
proof -
  define p where "p = toRad (latitude origin)"
  define dl where "dl = d / R"
  define t where "t = toRad b"
  define S where "S = sin p * cos dl + cos p * sin dl * cos t"
  define A where "A = cos dl * cos p - sin p * sin dl * cos t"
  define x where "x = cos dl - sin p * sin (arcsin S)"
  define y where "y = sin t * sin dl * cos p"
  define dlam where "dlam = toRad (longitude (sphereDestination R origin d b) - longitude origin)"
  have p_range: "- (pi / 2) < p" "p < pi / 2"
  proof -
    define u where "u = latitude origin * pi"
    have hi: "u < 90 * pi" unfolding u_def using lat(2) pi_gt_zero by (intro mult_strict_right_mono)
    have lo: "- 90 * pi < u" unfolding u_def using lat(1) pi_gt_zero by (intro mult_strict_right_mono)
    have r: "p = u / 180" by (simp only: p_def toRad_def u_def)
    show "- (pi / 2) < p" unfolding r using lo by linarith
    show "p < pi / 2" unfolding r using hi by linarith
  qed
  then have cp: "0 < cos p" by (rule cos_gt_zero_pi)
  then have cp0: "0 \<le> cos p" by simp
  note prod = sphere_products [OF cp0, of dl t, folded S_def A_def, folded x_def y_def]
  obtain n :: int where "dlam = atan2 y x + 2 * pi * of_int n"
    using sphere_destination_longitude [of R origin d b]
    unfolding dlam_def p_def dl_def t_def S_def x_def y_def by blast
  then have cd: "cos dlam = cos (atan2 y x)" and sd: "sin dlam = sin (atan2 y x)"
    by (simp_all only: shifted_angle)
  have lat2: "toRad (latitude (sphereDestination R origin d b)) = arcsin S"
    unfolding sphere_destination_latitude by (simp only: p_def dl_def t_def S_def)
  have c: "cos (arcsin S) * cos (atan2 y x) = A"
    using prod(2) cp by (simp add: mult.assoc)
  have s: "cos (arcsin S) * sin (atan2 y x) = sin t * sin dl"
    using prod(3) cp by (simp add: mult.assoc)
  have dl_range: "0 < dl" "dl < pi"
    using R d by (simp_all add: dl_def field_simps)
  then have k: "0 < sin dl" by (rule sin_gt_zero)
  have first: "sin dlam * cos (arcsin S) = sin dl * sin t"
    unfolding sd using s by (simp add: mult.commute)
  have "cos p * sin (arcsin S) - sin p * cos (arcsin S) * cos dlam = cos p * S - sin p * A"
    unfolding cd using prod(1) c by (simp add: mult.assoc)
  also have "\<dots> = sin dl * cos t" by (rule prod(5))
  finally have second:
    "cos p * sin (arcsin S) - sin p * cos (arcsin S) * cos dlam = sin dl * cos t" .
  have "sphereBearing origin (sphereDestination R origin d b)
      = js_rem (toDeg (atan2 (sin dlam * cos (arcsin S))
            (cos p * sin (arcsin S) - sin p * cos (arcsin S) * cos dlam)) + 360) 360"
    unfolding sphereBearing_def Let_def lat2 by (simp only: p_def dlam_def)
  also have "\<dots> = js_rem (toDeg (atan2 (sin dl * sin (toRad b)) (sin dl * cos (toRad b))) + 360) 360"
    unfolding first second t_def ..
  also have "\<dots> = b" using b k by (rule normalized_bearing)
  finally show ?thesis .
qed

lemma sphere_wrappers:
  "calculateDistance (sphereGeolib Rd accuracy Rp) a c = sphereDistance Rd accuracy a c"
  "calculateBearing (sphereGeolib Rd accuracy Rp) a c = sphereBearing a c"
  "calculateDestinationPoint (sphereGeolib Rd accuracy Rp) a b d = sphereDestination Rp a d b"
  by (simp_all add: calculateDistance_def calculateBearing_def calculateDestinationPoint_def
        sphereGeolib_def Let_def point_copy)


lemma defaults_wrappers:
  "calculateDistance geolibDefaults a c = sphereDistance 6378137 1 a c"
  "calculateBearing geolibDefaults a c = sphereBearing a c"
  "calculateDestinationPoint geolibDefaults a b d = sphereDestination 6371000 a d b"
  unfolding geolibDefaults_def by (rule sphere_wrappers)+

lemma sphereDistance_bounded:
  assumes "0 \<le> Rd"
  shows "sphereDistance Rd 1 a c \<le> Rd * pi + 1 / 2"
proof -
  define v where "v = clampUnit (sin (toRad (latitude a)) * sin (toRad (latitude c))
      + cos (toRad (latitude a)) * cos (toRad (latitude c)) * cos (toRad (longitude c - longitude a)))"
  have "- 1 \<le> v" "v \<le> 1" by (simp_all add: v_def clampUnit_def)
  then have "arccos v \<le> pi" by (rule arccos_ubound)
  then have le: "Rd * arccos v \<le> Rd * pi" using assms by (rule mult_left_mono)
  have "roundTo 1 (Rd * arccos v) \<le> Rd * arccos v + 1 / 2"
    using roundTo_near [of 1 "Rd * arccos v"] by linarith
  moreover have "sphereDistance Rd 1 a c = roundTo 1 (Rd * arccos v)"
    by (simp only: sphereDistance_def Let_def v_def)
  ultimately show ?thesis using le by linarith
qed

lemma short_hop_rounds_to_zero:
  "sphereDistance 6378137 1 \<lparr>latitude = 0, longitude = 0\<rparr>
     (sphereDestination 6371000 \<lparr>latitude = 0, longitude = 0\<rparr> (3 / 10) 0) = 0"
proof -
  have "(3 / 10 :: real) \<le> 2 * 6371000" by simp
  also have "\<dots> \<le> pi * 6371000" using pi_ge_two by simp
  finally have le: "(3 / 10 :: real) \<le> pi * 6371000" .
  have "sphereDistance 6378137 1 \<lparr>latitude = 0, longitude = 0\<rparr>
     (sphereDestination 6371000 \<lparr>latitude = 0, longitude = 0\<rparr> (3 / 10) 0)
     = roundTo 1 (6378137 * (3 / 10 / 6371000))"
    using le by (intro sphere_angle_roundtrip) simp_all
  also have "\<dots> = 0" by (simp add: roundTo_def)
  finally show ?thesis .
qed

text \<open>
  Claim C9 says that for every origin with valid latitude and longitude, every bearing
  from 0 up to 360 and every distance above 0, the distance from the origin to the
  projected point is the distance projected, within 0.5 per cent, and the bearing to it
  the bearing projected, within 1 degree. On the library as modelled the distance fails
  at both ends: no two points are further apart than half the circumference, so a
  projection by 30000 kilometres is found less than 25513 kilometres away; and a
  projection by 0.3 metres is at a distance that rounds to 0 metres.
\<close>

theorem round_trip_fails:
  "\<not> \<bar>calculateDistance geolibDefaults \<lparr>latitude = 0, longitude = 0\<rparr>
          (calculateDestinationPoint geolibDefaults \<lparr>latitude = 0, longitude = 0\<rparr> 0 30000000)
        - 30000000\<bar> \<le> 0.005 * 30000000
   \<and> \<not> \<bar>calculateDistance geolibDefaults \<lparr>latitude = 0, longitude = 0\<rparr>
          (calculateDestinationPoint geolibDefaults \<lparr>latitude = 0, longitude = 0\<rparr> 0 (3 / 10))
        - 3 / 10\<bar> \<le> 0.005 * (3 / 10)"
proof -
  define returned where "returned = calculateDistance geolibDefaults \<lparr>latitude = 0, longitude = 0\<rparr>
          (calculateDestinationPoint geolibDefaults \<lparr>latitude = 0, longitude = 0\<rparr> 0 30000000)"
  have "returned \<le> 6378137 * pi + 1 / 2"
    unfolding returned_def defaults_wrappers by (rule sphereDistance_bounded) simp
  moreover have "6378137 * pi \<le> 6378137 * 4" using pi_less_4 by simp
  ultimately have "returned \<le> 25512548 + 1 / 2" by linarith
  then have far: "\<not> \<bar>returned - 30000000\<bar> \<le> 0.005 * 30000000" by simp
  have near: "calculateDistance geolibDefaults \<lparr>latitude = 0, longitude = 0\<rparr>
          (calculateDestinationPoint geolibDefaults \<lparr>latitude = 0, longitude = 0\<rparr> 0 (3 / 10)) = 0"
    unfolding defaults_wrappers by (rule short_hop_rounds_to_zero)
  show ?thesis using far unfolding returned_def near by simp
qed

text \<open>
  Claim C9, amended. For every origin with valid latitude and longitude, every bearing
  from 0 up to 360 and every distance above 0 and at most half the circumference of the
  sphere projected on: when the distance is at least 129 metres, the distance from the
  origin to the projected point is the distance projected, within 0.5 per cent; and when
  the origin is off the poles and the distance short of half the circumference, the
  bearing to the projected point is the bearing projected.
\<close>

theorem round_trip_within_range:
  assumes "- 90 \<le> latitude origin" and "latitude origin \<le> 90"
    and "- 180 \<le> longitude origin" and "longitude origin \<le> 180"
    and "0 \<le> b" and "b < 360"
    and "0 < d" and "d \<le> pi * 6371000"
  shows "(129 \<le> d \<longrightarrow>
            \<bar>calculateDistance geolibDefaults origin
               (calculateDestinationPoint geolibDefaults origin b d) - d\<bar> \<le> 0.005 * d)
     \<and> (- 90 < latitude origin \<and> latitude origin < 90 \<and> d < pi * 6371000 \<longrightarrow>
            calculateBearing geolibDefaults origin
              (calculateDestinationPoint geolibDefaults origin b d) = b
          \<and> \<bar>calculateBearing geolibDefaults origin
              (calculateDestinationPoint geolibDefaults origin b d) - b\<bar> \<le> 1)"
proof (intro conjI impI)
  assume long: "129 \<le> d"
  define v where "v = 6378137 * (d / 6371000)"
  have e: "calculateDistance geolibDefaults origin
          (calculateDestinationPoint geolibDefaults origin b d) = roundTo 1 v"
    unfolding defaults_wrappers v_def using assms(1,2,7,8)
    by (intro sphere_angle_roundtrip) simp_all
  have r: "\<bar>roundTo 1 v - v\<bar> \<le> 1 / 2" using roundTo_near [of 1 v] by simp
  have vd: "v = d + 7137 * d / 6371000" unfolding v_def by simp
  have "\<bar>roundTo 1 v - d\<bar> \<le> d / 200" using r vd long by linarith
  then show "\<bar>calculateDistance geolibDefaults origin
               (calculateDestinationPoint geolibDefaults origin b d) - d\<bar> \<le> 0.005 * d"
    unfolding e by simp
next
  assume off: "- 90 < latitude origin \<and> latitude origin < 90 \<and> d < pi * 6371000"
  have bear: "calculateBearing geolibDefaults origin
              (calculateDestinationPoint geolibDefaults origin b d) = b"
    unfolding defaults_wrappers using assms(5,6,7) off
    by (intro sphere_bearing_roundtrip) simp_all
  then show "calculateBearing geolibDefaults origin
              (calculateDestinationPoint geolibDefaults origin b d) = b" .
  show "\<bar>calculateBearing geolibDefaults origin
              (calculateDestinationPoint geolibDefaults origin b d) - b\<bar> \<le> 1"
    unfolding bear by simp
qed

theorem round_trip_within_range_witness:
  "\<bar>calculateDistance geolibDefaults \<lparr>latitude = 45, longitude = 30\<rparr>
      (calculateDestinationPoint geolibDefaults \<lparr>latitude = 45, longitude = 30\<rparr> 90 1000)
     - 1000\<bar> \<le> 0.005 * 1000
   \<and> calculateBearing geolibDefaults \<lparr>latitude = 45, longitude = 30\<rparr>
      (calculateDestinationPoint geolibDefaults \<lparr>latitude = 45, longitude = 30\<rparr> 90 1000)
     = 90"
proof -
  have "(1000::real) < 2 * 6371000" by simp
  also have "\<dots> \<le> pi * 6371000" using pi_ge_two by simp
  finally have far: "(1000::real) < pi * 6371000" .
  then have le: "(1000::real) \<le> pi * 6371000" by simp
  note inst = round_trip_within_range [where origin = "\<lparr>latitude = 45, longitude = 30\<rparr>"
      and b = 90 and d = 1000]
  show ?thesis using inst far le by simp
qed

text \<open>
  Why the poles are left out of the bearing: in exact arithmetic every direction from the
  north pole is south, so the point projected from it along bearing 0 is found again at
  bearing 180.
\<close>

lemma from_pole_destination:
  "sphereDestination 6371000 \<lparr>latitude = 90, longitude = 0\<rparr> (pi * 6371000 / 2) 0
     = \<lparr>latitude = 0, longitude = 0\<rparr>"
  by (simp add: sphereDestination_def Let_def toRad_def toDeg_def atan2_def)

lemma from_pole_bearing:
  "sphereBearing \<lparr>latitude = 90, longitude = 0\<rparr> \<lparr>latitude = 0, longitude = 0\<rparr> = 180"
proof -
  have "atan2 0 (- 1) = pi" by (simp add: atan2_def)
  then have "sphereBearing \<lparr>latitude = 90, longitude = 0\<rparr> \<lparr>latitude = 0, longitude = 0\<rparr>
      = js_rem (toDeg pi + 360) 360"
    by (simp add: sphereBearing_def Let_def toRad_def)
  also have "\<dots> = 180" using js_rem_shifted [of 180] by (simp add: toDeg_def)
  finally show ?thesis .
qed

end
